theory Spec2Isabelle
  imports Complex_Main "HOL-Library.Multiset" "HOL-Library.Sublist"
begin

section \<open>Python values used by the scanner front end\<close>

text \<open>
  The module \<^verbatim>\<open>gimmemotifs/scanner/__init__.py\<close> is modelled function by function.
  Python strings are \<open>string\<close>; a Python \<open>float\<close> that is finite is the rational number
  it denotes (\<open>rat\<close>); Python's unbounded \<open>int\<close> is \<open>int\<close>; exceptions are values of
  \<open>exn\<close>, and a function that may raise returns \<open>exn + 'a\<close>.
\<close>

datatype exn =
    ValueError string
  | FileNotFoundError string
  | IndexError
  | KeyError
  | Raised string

text \<open>A motif object as the front end uses it: \<^verbatim>\<open>m.id\<close> and \<^verbatim>\<open>len(m)\<close>.\<close>

record motif =
  motif_id :: string
  motif_len :: nat

text \<open>
  An element of a list handed to \<^verbatim>\<open>check_motifs\<close>: either an object with the attribute
  \<^verbatim>\<open>to_ppm\<close> (a motif) or any other object.
\<close>

datatype pyobj = MotifObj motif | OtherObj

fun has_to_ppm :: "pyobj \<Rightarrow> bool" where
  "has_to_ppm (MotifObj m) = True"
| "has_to_ppm OtherObj = False"

text \<open>
  The argument \<^verbatim>\<open>pfmfile_or_motifs\<close>: a list, a string, \<^verbatim>\<open>None\<close>, or a value of any
  other type.
\<close>

datatype pfm = PList "pyobj list" | PStr string | PNone | POther

text \<open>
  What \<^verbatim>\<open>check_motifs\<close> reads from its surroundings: the default parameters of
  \<^verbatim>\<open>MotifConfig\<close>, the motif directory and the file system.
\<close>

record host =
  motif_db :: "string option"
  motif_dir :: string
  path_exists :: "string \<Rightarrow> bool"

text \<open>\<^verbatim>\<open>os.path.join(a, b)\<close> of \<^verbatim>\<open>posixpath\<close>, for two components.\<close>

definition path_join :: "string \<Rightarrow> string \<Rightarrow> string" where
  "path_join a b =
     (if b \<noteq> [] \<and> hd b = CHR ''/'' then b
      else if a = [] \<or> last a = CHR ''/'' then a @ b
      else a @ ''/'' @ b)"

section \<open>check_motifs\<close>

definition msg_not_motifs :: string where
  "msg_not_motifs =
     ''The input list does not contain Motif instances. '' @
     ''Please provide a pfmfile as a string, a list of Motif instances, '' @
     ''or None.''"

definition msg_no_default :: string where
  "msg_no_default = ''No pfmfile given and no default database specified''"

definition msg_bad_type :: string where
  "msg_bad_type =
     ''Please provide a pfmfile as a string, a list of Motif instances, '' @
     ''or None.''"

text \<open>The existence check at the end of \<^verbatim>\<open>check_motifs\<close>, shared by two branches.\<close>

definition check_exists :: "host \<Rightarrow> string \<Rightarrow> exn + pfm" where
  "check_exists h pfmfile =
     (if \<not> path_exists h pfmfile then Inl (FileNotFoundError pfmfile)
      else Inr (PStr pfmfile))"

fun check_motifs :: "host \<Rightarrow> pfm \<Rightarrow> exn + pfm" where
  "check_motifs h (PList motifs) =
     (case motifs of
        [] \<Rightarrow> Inl IndexError
      | m0 # _ \<Rightarrow>
          if \<not> has_to_ppm m0 then Inl (ValueError msg_not_motifs)
          else Inr (PList motifs))"
| "check_motifs h (PStr pfmfile) = check_exists h pfmfile"
| "check_motifs h PNone =
     (case motif_db h of
        None \<Rightarrow> Inl (ValueError msg_no_default)
      | Some pfmfile \<Rightarrow> check_exists h (path_join (motif_dir h) pfmfile))"
| "check_motifs h POther = Inl (ValueError msg_bad_type)"

text \<open>
  The spec's error taxonomy over the exceptions the function raises: both the
  input-validation errors and the configuration error are \<^verbatim>\<open>ValueError\<close> in the code,
  told apart by their messages.
\<close>

definition input_validation_error :: "exn + pfm \<Rightarrow> bool" where
  "input_validation_error r =
     (r = Inl (ValueError msg_not_motifs) \<or> r = Inl (ValueError msg_bad_type))"

definition configuration_error :: "exn + pfm \<Rightarrow> bool" where
  "configuration_error r = (r = Inl (ValueError msg_no_default))"

definition not_found_error :: "string \<Rightarrow> exn + pfm \<Rightarrow> bool" where
  "not_found_error p r = (r = Inl (FileNotFoundError p))"

lemma msg_no_default_distinct:
  "msg_no_default \<noteq> msg_not_motifs" "msg_no_default \<noteq> msg_bad_type"
  by (simp_all add: msg_no_default_def msg_not_motifs_def msg_bad_type_def)

lemma check_exists_not_validation: "\<not> input_validation_error (check_exists h p)"
  by (simp add: check_exists_def input_validation_error_def)

lemma check_motifs_validation_iff:
  "input_validation_error (check_motifs h x) \<longleftrightarrow>
     (\<exists>m0 ms. x = PList (m0 # ms) \<and> \<not> has_to_ppm m0) \<or> x = POther"
proof (cases x)
  case (PList motifs)
  then show ?thesis
    by (cases motifs) (simp_all add: input_validation_error_def)
next
  case (PStr p)
  then show ?thesis by (simp add: check_exists_not_validation)
next
  case PNone
  then show ?thesis
    by (cases "motif_db h")
       (simp_all add: check_exists_def input_validation_error_def
          msg_no_default_distinct)
next
  case POther
  then show ?thesis by (simp add: input_validation_error_def)
qed

text \<open>
  Claim C2. \<^verbatim>\<open>check_motifs\<close> fails with an input-validation error exactly when its input is
  a non-empty list whose first element lacks \<^verbatim>\<open>to_ppm\<close>, or a value that is neither a
  list, a string nor \<^verbatim>\<open>None\<close>. A non-empty list whose first element has \<^verbatim>\<open>to_ppm\<close> is
  returned unchanged. For \<^verbatim>\<open>None\<close> it fails with the configuration error when no default
  motif database is registered; otherwise it joins the motif directory and the default
  name, and fails with a not-found error carrying that path when the path does not exist.
  A string naming a path that does not exist fails with a not-found error carrying it.
\<close>

theorem check_motifs_spec:
  "(input_validation_error (check_motifs h x) \<longleftrightarrow>
      (\<exists>m0 ms. x = PList (m0 # ms) \<and> \<not> has_to_ppm m0) \<or> x = POther)
   \<and> (has_to_ppm m0 \<longrightarrow> check_motifs h (PList (m0 # ms)) = Inr (PList (m0 # ms)))
   \<and> (motif_db h = None \<longrightarrow> configuration_error (check_motifs h PNone))
   \<and> (motif_db h = Some d \<and> \<not> path_exists h (path_join (motif_dir h) d) \<longrightarrow>
        not_found_error (path_join (motif_dir h) d) (check_motifs h PNone))
   \<and> (\<not> path_exists h p \<longrightarrow> not_found_error p (check_motifs h (PStr p)))"
  by (simp add: check_motifs_validation_iff configuration_error_def not_found_error_def
      check_exists_def)

theorem check_motifs_spec_witness:
  "check_motifs \<lparr>motif_db = None, motif_dir = ''/db'', path_exists = (\<lambda>p. False)\<rparr>
      (PList [MotifObj \<lparr>motif_id = ''m1'', motif_len = 8\<rparr>, OtherObj])
     = Inr (PList [MotifObj \<lparr>motif_id = ''m1'', motif_len = 8\<rparr>, OtherObj])
   \<and> input_validation_error
        (check_motifs \<lparr>motif_db = None, motif_dir = ''/db'', path_exists = (\<lambda>p. False)\<rparr>
           (PList [OtherObj]))
   \<and> configuration_error
        (check_motifs \<lparr>motif_db = None, motif_dir = ''/db'', path_exists = (\<lambda>p. False)\<rparr> PNone)
   \<and> not_found_error ''/db/default.pfm''
        (check_motifs
           \<lparr>motif_db = Some ''default.pfm'', motif_dir = ''/db'', path_exists = (\<lambda>p. False)\<rparr>
           PNone)
   \<and> not_found_error ''missing.pfm''
        (check_motifs \<lparr>motif_db = None, motif_dir = ''/db'', path_exists = (\<lambda>p. False)\<rparr>
           (PStr ''missing.pfm''))"
  using
    check_motifs_spec [of "\<lparr>motif_db = None, motif_dir = ''/db'', path_exists = (\<lambda>p. False)\<rparr>"
      "PList [OtherObj]" "MotifObj \<lparr>motif_id = ''m1'', motif_len = 8\<rparr>" "[OtherObj]"
      "''default.pfm''" "''missing.pfm''"]
    check_motifs_spec [of
      "\<lparr>motif_db = Some ''default.pfm'', motif_dir = ''/db'', path_exists = (\<lambda>p. False)\<rparr>"
      "PNone" "OtherObj" "[]" "''default.pfm''" "''missing.pfm''"]
  by (simp add: path_join_def)

section \<open>Strings and numbers as Python renders them\<close>

text \<open>
  \<^verbatim>\<open>str(n)\<close> of an integer, \<^verbatim>\<open>int(s)\<close> of a string of decimal digits, and the
  character classes \<^verbatim>\<open>\d\<close> and \<^verbatim>\<open>\s\<close> of the module \<^verbatim>\<open>re\<close>. A \<open>char\<close> is a
  code point below 256; among these \<^verbatim>\<open>\d\<close> matches the ten ASCII digits and \<^verbatim>\<open>\s\<close>
  the twelve characters for which \<^verbatim>\<open>str.isspace\<close> holds.
\<close>

definition digit_char :: "nat \<Rightarrow> char" where
  "digit_char d = ''0123456789'' ! d"

fun str_nat :: "nat \<Rightarrow> string" where
  "str_nat n = (if n < 10 then [digit_char n] else str_nat (n div 10) @ [digit_char (n mod 10)])"

declare str_nat.simps [simp del]

definition str_int :: "int \<Rightarrow> string" where
  "str_int i = (if i < 0 then ''-'' @ str_nat (nat (- i)) else str_nat (nat i))"

definition is_digit :: "char \<Rightarrow> bool" where
  "is_digit c = (c \<in> set ''0123456789'')"

definition digit_val :: "char \<Rightarrow> nat" where
  "digit_val c = of_char c - 48"

definition int_of_digits :: "string \<Rightarrow> nat" where
  "int_of_digits ds = foldl (\<lambda>a c. 10 * a + digit_val c) 0 ds"

definition is_space :: "char \<Rightarrow> bool" where
  "is_space c = (c \<in> set [CHR 0x09, CHR 0x0A, CHR 0x0B, CHR 0x0C, CHR 0x0D, CHR 0x1C, CHR 0x1D,
      CHR 0x1E, CHR 0x1F, CHR 0x20, CHR 0x85, CHR 0xA0])"

lemma digit_val_digit_char: "d < 10 \<Longrightarrow> digit_val (digit_char d) = d"
proof -
  assume "d < 10"
  then have "d \<in> {0,1,2,3,4,5,6,7,8,9}" by auto
  then show ?thesis by (auto simp: digit_val_def digit_char_def)
qed

lemma is_digit_digit_char: "d < 10 \<Longrightarrow> is_digit (digit_char d)"
proof -
  assume "d < 10"
  then have "d \<in> {0,1,2,3,4,5,6,7,8,9}" by auto
  then show ?thesis by (auto simp: is_digit_def digit_char_def)
qed

lemma int_of_digits_snoc: "int_of_digits (ds @ [c]) = 10 * int_of_digits ds + digit_val c"
  by (simp add: int_of_digits_def)

lemma int_of_digits_str_nat: "int_of_digits (str_nat n) = n"
proof (induction n rule: str_nat.induct)
  case (1 n)
  show ?case
  proof (cases "n < 10")
    case True
    then show ?thesis by (subst str_nat.simps) (simp add: int_of_digits_def digit_val_digit_char)
  next
    case False
    with 1 show ?thesis
      by (subst str_nat.simps) (simp add: int_of_digits_snoc digit_val_digit_char)
  qed
qed

lemma str_nat_digits: "\<forall>c \<in> set (str_nat n). is_digit c"
proof (induction n rule: str_nat.induct)
  case (1 n)
  show ?case
  proof (cases "n < 10")
    case True
    then show ?thesis by (subst str_nat.simps) (simp add: is_digit_digit_char)
  next
    case False
    with 1 show ?thesis
      by (subst str_nat.simps) (simp add: is_digit_digit_char)
  qed
qed

lemma str_nat_nonempty: "str_nat n \<noteq> []"
  by (subst str_nat.simps) simp

section \<open>The pattern of sequence identifiers\<close>

text \<open>
  \<^verbatim>\<open>seq_p = re.compile(r"([^\s:]+):(\d+)-(\d+)")\<close> and \<^verbatim>\<open>seq_p.search(seq_id)\<close>. Each
  of the three groups is a greedy run of a character class followed by a character outside
  that class (or by the end of the pattern), so a match that starts at a given position
  takes the maximal runs: no shorter run can be followed by the separator. The search
  tries the start positions from left to right and returns the groups of the first match.
\<close>

definition seq_p_class1 :: "char \<Rightarrow> bool" where
  "seq_p_class1 c = (\<not> is_space c \<and> c \<noteq> CHR '':'')"

fun expect :: "char \<Rightarrow> string \<Rightarrow> string option" where
  "expect c [] = None"
| "expect c (x # xs) = (if x = c then Some xs else None)"

definition seq_p_match_at :: "string \<Rightarrow> (string \<times> string \<times> string) option" where
  "seq_p_match_at s =
     (let g1 = takeWhile seq_p_class1 s in
      if g1 = [] then None
      else case expect (CHR '':'') (dropWhile seq_p_class1 s) of
        None \<Rightarrow> None
      | Some r2 \<Rightarrow>
          (let g2 = takeWhile is_digit r2 in
           if g2 = [] then None
           else case expect (CHR ''-'') (dropWhile is_digit r2) of
             None \<Rightarrow> None
           | Some r4 \<Rightarrow>
               (let g3 = takeWhile is_digit r4 in
                if g3 = [] then None else Some (g1, g2, g3))))"

fun seq_p_search :: "string \<Rightarrow> (string \<times> string \<times> string) option" where
  "seq_p_search [] = None"
| "seq_p_search (c # cs) =
     (case seq_p_match_at (c # cs) of
        Some g \<Rightarrow> Some g
      | None \<Rightarrow> seq_p_search cs)"

section \<open>Formatting one match\<close>

text \<open>
  \<^verbatim>\<open>strandmap = {-1: "-", 1: "+"}\<close>; a lookup of any other key raises \<^verbatim>\<open>KeyError\<close>.
\<close>

definition strandmap :: "int \<Rightarrow> exn + string" where
  "strandmap strand =
     (if strand = - 1 then Inr ''-'' else if strand = 1 then Inr ''+'' else Inl KeyError)"

text \<open>The slice \<^verbatim>\<open>xs[i:j]\<close>, negative indices counted from the end.\<close>

definition py_slice :: "'a list \<Rightarrow> int \<Rightarrow> int \<Rightarrow> 'a list" where
  "py_slice xs i j =
     (let n = int (length xs);
          lo = (if i < 0 then max (i + n) 0 else min i n);
          hi = (if j < 0 then max (j + n) 0 else min j n)
      in take (nat (hi - lo)) (drop (nat lo) xs))"

text \<open>\<^verbatim>\<open>sep.join(xs)\<close>.\<close>

fun join :: "string \<Rightarrow> string list \<Rightarrow> string" where
  "join sep [] = []"
| "join sep [x] = x"
| "join sep (x # y # ys) = x @ sep @ join sep (y # ys)"

definition TAB :: string where "TAB = [CHR 0x09]"
definition DQ :: string where "DQ = [CHR 0x22]"

text \<open>
  \<^verbatim>\<open>_format_line(seq, seq_id, motif, score, pos, strand, bed)\<close> with the default
  \<^verbatim>\<open>seq_p\<close> and \<^verbatim>\<open>strandmap\<close>. The score is a float rendered by \<^verbatim>\<open>"{}".format\<close>;
  the rendering is the parameter \<open>str_float\<close>. The arguments of \<^verbatim>\<open>format\<close> are
  evaluated before the string is built, so an unknown strand raises in every branch.
\<close>

definition format_line ::
  "(rat \<Rightarrow> string) \<Rightarrow> string \<Rightarrow> string \<Rightarrow> motif \<Rightarrow> rat \<Rightarrow> int \<Rightarrow> int \<Rightarrow> bool \<Rightarrow> exn + string" where
  "format_line str_float seq seq_id motif score pos strand bed =
     (if bed then
        (case seq_p_search seq_id of
           Some (chrom, g2, g3) \<Rightarrow>
             (let start = int (int_of_digits g2) in
              case strandmap strand of
                Inl e \<Rightarrow> Inl e
              | Inr sg \<Rightarrow>
                  Inr (join TAB [chrom, str_int (start + pos),
                         str_int (start + pos + int (motif_len motif)),
                         motif_id motif, str_float score, sg]))
         | None \<Rightarrow>
             (case strandmap strand of
                Inl e \<Rightarrow> Inl e
              | Inr sg \<Rightarrow>
                  Inr (join TAB [seq_id, str_int pos, str_int (pos + int (motif_len motif)),
                         motif_id motif, str_float score, sg])))
      else
        (case strandmap strand of
           Inl e \<Rightarrow> Inl e
         | Inr sg \<Rightarrow>
             Inr (join TAB [seq_id, ''pfmscan'', ''misc_feature'', str_int (pos + 1),
                    str_int (pos + int (motif_len motif)), str_float score, sg, ''.'',
                    ''motif_name '' @ DQ @ motif_id motif @ DQ @ '' ; motif_instance '' @ DQ @
                      py_slice seq pos (pos + int (motif_len motif)) @ DQ])))"

lemma not_digit_dash: "\<not> is_digit (CHR ''-'')"
  by (simp add: is_digit_def)

lemma not_class1_colon: "\<not> seq_p_class1 (CHR '':'')"
  by (simp add: seq_p_class1_def)

lemma takeWhile_stop:
  "(\<forall>x \<in> set xs. P x) \<Longrightarrow> \<not> P y \<Longrightarrow> takeWhile P (xs @ y # ys) = xs"
  by simp

lemma dropWhile_stop:
  "(\<forall>x \<in> set xs. P x) \<Longrightarrow> \<not> P y \<Longrightarrow> dropWhile P (xs @ y # ys) = y # ys"
  by simp

lemma takeWhile_all: "(\<forall>x \<in> set xs. P x) \<Longrightarrow> takeWhile P xs = xs"
  by simp

lemma seq_p_match_at_locus:
  assumes "contig \<noteq> []" and "\<forall>c \<in> set contig. seq_p_class1 c"
  shows "seq_p_match_at (contig @ '':'' @ str_nat a @ ''-'' @ str_nat b)
           = Some (contig, str_nat a, str_nat b)"
proof -
  have t1: "takeWhile seq_p_class1 (contig @ CHR '':'' # str_nat a @ CHR ''-'' # str_nat b) = contig"
    using assms(2) by (rule takeWhile_stop) (rule not_class1_colon)
  have d1: "dropWhile seq_p_class1 (contig @ CHR '':'' # str_nat a @ CHR ''-'' # str_nat b)
              = CHR '':'' # str_nat a @ CHR ''-'' # str_nat b"
    using assms(2) by (rule dropWhile_stop) (rule not_class1_colon)
  have t2: "takeWhile is_digit (str_nat a @ CHR ''-'' # str_nat b) = str_nat a"
    using str_nat_digits by (rule takeWhile_stop) (rule not_digit_dash)
  have d2: "dropWhile is_digit (str_nat a @ CHR ''-'' # str_nat b) = CHR ''-'' # str_nat b"
    using str_nat_digits by (rule dropWhile_stop) (rule not_digit_dash)
  have t3: "takeWhile is_digit (str_nat b) = str_nat b"
    using str_nat_digits by (rule takeWhile_all)
  show ?thesis
    using assms(1) by (simp add: seq_p_match_at_def t1 d1 t2 d2 t3 str_nat_nonempty)
qed

lemma seq_p_search_locus:
  assumes "contig \<noteq> []" and "\<forall>c \<in> set contig. seq_p_class1 c"
  shows "seq_p_search (contig @ '':'' @ str_nat a @ ''-'' @ str_nat b)
           = Some (contig, str_nat a, str_nat b)"
proof -
  obtain c cs where e: "contig @ '':'' @ str_nat a @ ''-'' @ str_nat b = c # cs"
    using assms(1) by (cases contig) auto
  have "seq_p_search (c # cs) = Some (contig, str_nat a, str_nat b)"
    using seq_p_match_at_locus [OF assms, of a b] e by simp
  then show ?thesis using e by simp
qed

definition strand_symbol :: "int \<Rightarrow> string" where
  "strand_symbol strand = (if strand = 1 then ''+'' else ''-'')"

lemma strandmap_valid:
  "strand = 1 \<or> strand = - 1 \<Longrightarrow> strandmap strand = Inr (if strand = 1 then ''+'' else ''-'')"
  by (auto simp: strandmap_def)

lemma py_slice_nonneg:
  "0 \<le> i \<Longrightarrow> py_slice xs i (i + int n) = take n (drop (nat i) xs)"
  by (auto simp: py_slice_def Let_def min_def)

text \<open>
  Claim C4. For a match with strand \<open>+1\<close> or \<open>-1\<close> at a position \<open>pos \<ge> 0\<close>:
  with \<^verbatim>\<open>bed=True\<close> and an identifier of the form \<^verbatim>\<open>contig:start-end\<close> (more generally,
  an identifier in which the pattern is found) the line is the tab-separated fields
  contig, start + pos, start + pos + motif length, motif id, score, strand symbol; with
  \<^verbatim>\<open>bed=True\<close> and an identifier in which the pattern is not found the fields are
  identifier, pos, pos + motif length, motif id, score, strand symbol; with
  \<^verbatim>\<open>bed=False\<close> the nine fields are identifier, \<^verbatim>\<open>pfmscan\<close>, \<^verbatim>\<open>misc_feature\<close>, pos + 1,
  pos + motif length, score, strand symbol, a dot, and the attribute string naming the
  motif and the part of the sequence at \<open>[pos, pos + motif length)\<close>.
\<close>

theorem format_line_spec:
  assumes "strand = 1 \<or> strand = - 1" and "0 \<le> pos"
  shows
    "(contig \<noteq> [] \<and> (\<forall>c \<in> set contig. \<not> is_space c \<and> c \<noteq> CHR '':'') \<longrightarrow>
        format_line str_float seq (contig @ '':'' @ str_nat start @ ''-'' @ str_nat stop)
            motif score pos strand True
          = Inr (contig @ TAB @ str_int (int start + pos) @ TAB @
                 str_int (int start + pos + int (motif_len motif)) @ TAB @
                 motif_id motif @ TAB @ str_float score @ TAB @ strand_symbol strand))
     \<and> (seq_p_search seq_id = Some (chrom, g2, g3) \<longrightarrow>
        format_line str_float seq seq_id motif score pos strand True
          = Inr (chrom @ TAB @ str_int (int (int_of_digits g2) + pos) @ TAB @
                 str_int (int (int_of_digits g2) + pos + int (motif_len motif)) @ TAB @
                 motif_id motif @ TAB @ str_float score @ TAB @ strand_symbol strand))
     \<and> (seq_p_search seq_id = None \<longrightarrow>
        format_line str_float seq seq_id motif score pos strand True
          = Inr (seq_id @ TAB @ str_int pos @ TAB @ str_int (pos + int (motif_len motif)) @ TAB @
                 motif_id motif @ TAB @ str_float score @ TAB @ strand_symbol strand))
     \<and> format_line str_float seq seq_id motif score pos strand False
          = Inr (seq_id @ TAB @ ''pfmscan'' @ TAB @ ''misc_feature'' @ TAB @
                 str_int (pos + 1) @ TAB @ str_int (pos + int (motif_len motif)) @ TAB @
                 str_float score @ TAB @ strand_symbol strand @ TAB @ ''.'' @ TAB @
                 ''motif_name '' @ DQ @ motif_id motif @ DQ @ '' ; motif_instance '' @ DQ @
                 take (motif_len motif) (drop (nat pos) seq) @ DQ)"
proof -
  have sm: "strandmap strand = Inr (strand_symbol strand)"
    using assms(1) by (auto simp: strandmap_def strand_symbol_def)
  have a: "contig \<noteq> [] \<and> (\<forall>c \<in> set contig. \<not> is_space c \<and> c \<noteq> CHR '':'') \<longrightarrow>
        format_line str_float seq (contig @ '':'' @ str_nat start @ ''-'' @ str_nat stop)
            motif score pos strand True
          = Inr (contig @ TAB @ str_int (int start + pos) @ TAB @
                 str_int (int start + pos + int (motif_len motif)) @ TAB @
                 motif_id motif @ TAB @ str_float score @ TAB @ strand_symbol strand)"
  proof
    assume h: "contig \<noteq> [] \<and> (\<forall>c \<in> set contig. \<not> is_space c \<and> c \<noteq> CHR '':'')"
    then have "seq_p_search (contig @ '':'' @ str_nat start @ ''-'' @ str_nat stop)
                 = Some (contig, str_nat start, str_nat stop)"
      by (intro seq_p_search_locus) (simp_all add: seq_p_class1_def)
    then show "format_line str_float seq (contig @ '':'' @ str_nat start @ ''-'' @ str_nat stop)
            motif score pos strand True
          = Inr (contig @ TAB @ str_int (int start + pos) @ TAB @
                 str_int (int start + pos + int (motif_len motif)) @ TAB @
                 motif_id motif @ TAB @ str_float score @ TAB @ strand_symbol strand)"
      by (simp add: format_line_def sm int_of_digits_str_nat Let_def)
  qed
  have b: "seq_p_search seq_id = Some (chrom, g2, g3) \<longrightarrow>
        format_line str_float seq seq_id motif score pos strand True
          = Inr (chrom @ TAB @ str_int (int (int_of_digits g2) + pos) @ TAB @
                 str_int (int (int_of_digits g2) + pos + int (motif_len motif)) @ TAB @
                 motif_id motif @ TAB @ str_float score @ TAB @ strand_symbol strand)"
    by (simp add: format_line_def sm Let_def)
  have c: "seq_p_search seq_id = None \<longrightarrow>
        format_line str_float seq seq_id motif score pos strand True
          = Inr (seq_id @ TAB @ str_int pos @ TAB @ str_int (pos + int (motif_len motif)) @ TAB @
                 motif_id motif @ TAB @ str_float score @ TAB @ strand_symbol strand)"
    by (simp add: format_line_def sm Let_def)
  have d: "format_line str_float seq seq_id motif score pos strand False
          = Inr (seq_id @ TAB @ ''pfmscan'' @ TAB @ ''misc_feature'' @ TAB @
                 str_int (pos + 1) @ TAB @ str_int (pos + int (motif_len motif)) @ TAB @
                 str_float score @ TAB @ strand_symbol strand @ TAB @ ''.'' @ TAB @
                 ''motif_name '' @ DQ @ motif_id motif @ DQ @ '' ; motif_instance '' @ DQ @
                 take (motif_len motif) (drop (nat pos) seq) @ DQ)"
    using assms(2) by (simp add: format_line_def sm py_slice_nonneg)
  from a b c d show ?thesis by blast
qed

theorem format_line_spec_witness:
  "format_line (\<lambda>x. ''7.5'') ''ACGTACGTACGTACGTACGT'' ''chr1:1000-2000''
       \<lparr>motif_id = ''m1'', motif_len = 8\<rparr> (15 / 2) 5 1 True
     = Inr (''chr1'' @ TAB @ ''1005'' @ TAB @ ''1013'' @ TAB @ ''m1'' @ TAB @ ''7.5'' @ TAB @ ''+'')
   \<and> format_line (\<lambda>x. ''7.5'') ''ACGTACGTACGTACGTACGT'' ''seq42''
       \<lparr>motif_id = ''m1'', motif_len = 8\<rparr> (15 / 2) 5 1 True
     = Inr (''seq42'' @ TAB @ ''5'' @ TAB @ ''13'' @ TAB @ ''m1'' @ TAB @ ''7.5'' @ TAB @ ''+'')
   \<and> format_line (\<lambda>x. ''7.5'') ''ACGTACGTACGTACGTACGT'' ''seq42''
       \<lparr>motif_id = ''m1'', motif_len = 8\<rparr> (15 / 2) 5 1 False
     = Inr (''seq42'' @ TAB @ ''pfmscan'' @ TAB @ ''misc_feature'' @ TAB @ ''6'' @ TAB @ ''13'' @
            TAB @ ''7.5'' @ TAB @ ''+'' @ TAB @ ''.'' @ TAB @
            ''motif_name '' @ DQ @ ''m1'' @ DQ @ '' ; motif_instance '' @ DQ @ ''CGTACGTA'' @ DQ)"
proof -
  have s: "(1::int) = 1 \<or> (1::int) = - 1" by simp
  have p: "(0::int) \<le> 5" by simp
  have n1: "str_nat 1000 = ''1000''" and n2: "str_nat 2000 = ''2000''"
    by (simp_all add: str_nat.simps digit_char_def)
  have none: "seq_p_search ''seq42'' = None"
    by (simp add: seq_p_match_at_def seq_p_class1_def is_space_def is_digit_def)
  have c1: "''chr1'' \<noteq> [] \<and> (\<forall>c \<in> set ''chr1''. \<not> is_space c \<and> c \<noteq> CHR '':'')"
    by (simp add: is_space_def)
  note t1 = format_line_spec [OF s p, of "''chr1''" "\<lambda>x. ''7.5''" "''ACGTACGTACGTACGTACGT''" 1000 2000
      "\<lparr>motif_id = ''m1'', motif_len = 8\<rparr>" "15 / 2" "''seq42''" "''chr1''" "''1''" "''2''"]
  show ?thesis
    using t1 c1 none
    by (simp add: n1 n2 str_int_def str_nat.simps digit_char_def strand_symbol_def)
qed

section \<open>The search against the pattern's meaning\<close>

text \<open>
  \<open>seq_p_matches s g1 g2 g3 rest\<close>: the pattern matches a prefix of \<open>s\<close> with the three
  groups \<open>g1\<close>, \<open>g2\<close> and \<open>g3\<close>, leaving \<open>rest\<close>. The function \<open>seq_p_match_at\<close> finds
  a match exactly when there is one, with the same first two groups and the longest
  third group; \<open>seq_p_search\<close> returns the match at the leftmost position that has one.
\<close>

definition seq_p_matches :: "string \<Rightarrow> string \<Rightarrow> string \<Rightarrow> string \<Rightarrow> string \<Rightarrow> bool" where
  "seq_p_matches s g1 g2 g3 rest =
     (s = g1 @ '':'' @ g2 @ ''-'' @ g3 @ rest
      \<and> g1 \<noteq> [] \<and> (\<forall>c \<in> set g1. seq_p_class1 c)
      \<and> g2 \<noteq> [] \<and> (\<forall>c \<in> set g2. is_digit c)
      \<and> g3 \<noteq> [] \<and> (\<forall>c \<in> set g3. is_digit c))"

lemma seq_p_match_at_complete:
  assumes "seq_p_matches s g1 g2 g3 rest"
  shows "seq_p_match_at s = Some (g1, g2, g3 @ takeWhile is_digit rest)"
proof -
  from assms have s: "s = g1 @ CHR '':'' # g2 @ CHR ''-'' # g3 @ rest"
    and g1: "g1 \<noteq> []" "\<forall>c \<in> set g1. seq_p_class1 c"
    and g2: "g2 \<noteq> []" "\<forall>c \<in> set g2. is_digit c"
    and g3: "g3 \<noteq> []" "\<forall>c \<in> set g3. is_digit c"
    by (simp_all add: seq_p_matches_def)
  have t1: "takeWhile seq_p_class1 s = g1"
    unfolding s using g1(2) by (rule takeWhile_stop) (rule not_class1_colon)
  have d1: "dropWhile seq_p_class1 s = CHR '':'' # g2 @ CHR ''-'' # g3 @ rest"
    unfolding s using g1(2) by (rule dropWhile_stop) (rule not_class1_colon)
  have t2: "takeWhile is_digit (g2 @ CHR ''-'' # g3 @ rest) = g2"
    using g2(2) by (rule takeWhile_stop) (rule not_digit_dash)
  have d2: "dropWhile is_digit (g2 @ CHR ''-'' # g3 @ rest) = CHR ''-'' # g3 @ rest"
    using g2(2) by (rule dropWhile_stop) (rule not_digit_dash)
  have t3: "takeWhile is_digit (g3 @ rest) = g3 @ takeWhile is_digit rest"
    using g3(2) by (simp add: takeWhile_append2)
  show ?thesis
    using g1(1) g2(1) g3(1) by (simp add: seq_p_match_at_def t1 d1 t2 d2 t3)
qed

lemma expect_Some: "expect c s = Some r \<Longrightarrow> s = c # r"
  by (cases s) (auto split: if_splits)

lemma seq_p_match_at_sound:
  assumes "seq_p_match_at s = Some (g1, g2, g3)"
  shows "\<exists>rest. seq_p_matches s g1 g2 g3 rest"
proof -
  from assms have g1: "g1 = takeWhile seq_p_class1 s" "g1 \<noteq> []"
    by (auto simp: seq_p_match_at_def Let_def split: if_splits option.splits)
  from assms obtain r2 where r2: "expect (CHR '':'') (dropWhile seq_p_class1 s) = Some r2"
    by (auto simp: seq_p_match_at_def Let_def split: if_splits option.splits)
  from assms r2 have g2: "g2 = takeWhile is_digit r2" "g2 \<noteq> []"
    by (auto simp: seq_p_match_at_def Let_def split: if_splits option.splits)
  from assms r2 obtain r4 where r4: "expect (CHR ''-'') (dropWhile is_digit r2) = Some r4"
    by (auto simp: seq_p_match_at_def Let_def split: if_splits option.splits)
  from assms r2 r4 have g3: "g3 = takeWhile is_digit r4" "g3 \<noteq> []"
    by (auto simp: seq_p_match_at_def Let_def split: if_splits option.splits)
  have "s = takeWhile seq_p_class1 s @ dropWhile seq_p_class1 s" by simp
  also have "dropWhile seq_p_class1 s = CHR '':'' # r2" using r2 by (rule expect_Some)
  also have "r2 = takeWhile is_digit r2 @ dropWhile is_digit r2" by simp
  also have "dropWhile is_digit r2 = CHR ''-'' # r4" using r4 by (rule expect_Some)
  also have "r4 = takeWhile is_digit r4 @ dropWhile is_digit r4" by simp
  finally have "s = g1 @ '':'' @ g2 @ ''-'' @ g3 @ dropWhile is_digit r4"
    by (simp add: g1 g2 g3)
  moreover have "\<forall>c \<in> set g1. seq_p_class1 c" "\<forall>c \<in> set g2. is_digit c"
    "\<forall>c \<in> set g3. is_digit c"
    unfolding g1 g2 g3 by (auto dest: set_takeWhileD)
  ultimately have "seq_p_matches s g1 g2 g3 (dropWhile is_digit r4)"
    using g1(2) g2(2) g3(2) by (simp add: seq_p_matches_def)
  then show ?thesis by blast
qed

lemma seq_p_search_None:
  "seq_p_search s = None \<longleftrightarrow> (\<forall>pre suf. s = pre @ suf \<longrightarrow> seq_p_match_at suf = None)"
proof (induction s)
  case Nil
  then show ?case by (simp add: seq_p_match_at_def)
next
  case (Cons c cs)
  show ?case
  proof
    assume n: "seq_p_search (c # cs) = None"
    then have m: "seq_p_match_at (c # cs) = None" and r: "seq_p_search cs = None"
      by (auto split: option.splits)
    show "\<forall>pre suf. c # cs = pre @ suf \<longrightarrow> seq_p_match_at suf = None"
    proof (intro allI impI)
      fix pre suf
      assume e: "c # cs = pre @ suf"
      show "seq_p_match_at suf = None"
      proof (cases pre)
        case Nil
        with e m show ?thesis by simp
      next
        case (Cons p ps)
        with e have "cs = ps @ suf" by simp
        with r Cons.IH show ?thesis by blast
      qed
    qed
  next
    assume a: "\<forall>pre suf. c # cs = pre @ suf \<longrightarrow> seq_p_match_at suf = None"
    then have m: "seq_p_match_at (c # cs) = None" by (metis append_Nil)
    have "\<forall>pre suf. cs = pre @ suf \<longrightarrow> seq_p_match_at suf = None"
      using a by (metis append_Cons)
    with Cons.IH have "seq_p_search cs = None" by blast
    with m show "seq_p_search (c # cs) = None" by simp
  qed
qed

lemma seq_p_search_leftmost:
  assumes "seq_p_search s = Some g"
  shows "\<exists>pre suf. s = pre @ suf \<and> seq_p_match_at suf = Some g
           \<and> (\<forall>pre' suf'. s = pre' @ suf' \<and> length pre' < length pre \<longrightarrow>
                  seq_p_match_at suf' = None)"
  using assms
proof (induction s)
  case Nil
  then show ?case by simp
next
  case (Cons c cs)
  show ?case
  proof (cases "seq_p_match_at (c # cs)")
    case (Some g')
    with Cons.prems have "seq_p_match_at (c # cs) = Some g" by simp
    then have "c # cs = [] @ (c # cs) \<and> seq_p_match_at (c # cs) = Some g
        \<and> (\<forall>pre' suf'. c # cs = pre' @ suf' \<and> length pre' < length ([]::string) \<longrightarrow>
               seq_p_match_at suf' = None)"
      by simp
    then show ?thesis by blast
  next
    case None
    with Cons.prems have "seq_p_search cs = Some g" by simp
    from Cons.IH [OF this] obtain pre suf where
      e: "cs = pre @ suf" and m: "seq_p_match_at suf = Some g"
      and l: "\<forall>pre' suf'. cs = pre' @ suf' \<and> length pre' < length pre \<longrightarrow>
                seq_p_match_at suf' = None"
      by blast
    have "\<forall>pre' suf'. c # cs = pre' @ suf' \<and> length pre' < length (c # pre) \<longrightarrow>
            seq_p_match_at suf' = None"
    proof (intro allI impI)
      fix pre' suf'
      assume a: "c # cs = pre' @ suf' \<and> length pre' < length (c # pre)"
      show "seq_p_match_at suf' = None"
      proof (cases pre')
        case Nil
        with a None show ?thesis by simp
      next
        case (Cons p ps)
        with a have "cs = ps @ suf' \<and> length ps < length pre" by simp
        with l show ?thesis by blast
      qed
    qed
    with e m have "c # cs = (c # pre) @ suf \<and> seq_p_match_at suf = Some g
        \<and> (\<forall>pre' suf'. c # cs = pre' @ suf' \<and> length pre' < length (c # pre) \<longrightarrow>
               seq_p_match_at suf' = None)"
      by simp
    then show ?thesis by blast
  qed
qed

section \<open>The collaborators as a trace of calls\<close>

text \<open>
  The scanning engine (\<^verbatim>\<open>Scanner\<close>), the sequence reader (\<^verbatim>\<open>as_fasta\<close>), the motif
  reader, pandas, the random source and the output sink are not part of this module. Each
  call to one of them is an \<open>event\<close>; an entry function is the list of steps it takes,
  in program order, and \<open>run\<close> executes the list against an oracle that says which call
  raises. The values the calls return are the fields of \<open>world\<close>.
\<close>

text \<open>
  Modelled from the spec: the constant \<^verbatim>\<open>FPR\<close> of \<^verbatim>\<open>gimmemotifs.scanner.base\<close>, the
  default false-positive rate 0.01.
\<close>

definition FPR :: rat where
  "FPR = 1 / 100"

text \<open>
  The sink \<^verbatim>\<open>fo\<close>: standard output, a stream handed in by the caller, or the file the
  function opened itself. The argument \<^verbatim>\<open>filepath_or_buffer\<close> is \<^verbatim>\<open>None\<close>, an object
  with a \<^verbatim>\<open>write\<close> attribute, or a path.
\<close>

datatype handle = Stdout | Stream nat | File string

datatype sink = NoSink | Buffer nat | Path string

text \<open>
  The calls, with the arguments the module passes. An argument that a call leaves to its
  default is \<open>None\<close>. \<open>Next i\<close> is the request for item \<open>i\<close> of the iterator that the
  last result-producing call returned.
\<close>

datatype event =
    Makedirs string
  | Open string
  | Write handle string
  | Close handle
  | ReadFeather string
  | ReadTable string
  | Choice "nat option" "string list" nat bool
  | AsFastaRegions "string list" "string option"
  | AsFasta string "string option"
  | MedianLength
  | ReadMotifs pfm
  | NewScanner "nat option" "nat option" "bool option"
  | SetMotifs pfm
  | SetGenome "string option"
  | SetBackground "string option" "string option" rat bool
  | SetThreshold "rat option" "rat option"
  | Count "int option" "bool option"
  | BestScore "bool option" bool bool
  | BestMatch bool bool
  | Scan int bool bool bool
  | Next nat
  | DataFrame

text \<open>
  A step is a call whose exception propagates (\<open>Do\<close>), a call inside
  \<^verbatim>\<open>try: ... except Exception: pass\<close> (\<open>Try\<close>), or a \<^verbatim>\<open>raise\<close> of the module's own
  code (\<open>Raise\<close>). \<open>run\<close> returns the exception that ended the run, if any, and the
  calls made up to that point, the failing one included.
\<close>

datatype step = Do event | Try event | Raise exn

fun run :: "(event list \<Rightarrow> event \<Rightarrow> exn option) \<Rightarrow> event list \<Rightarrow> step list \<Rightarrow> exn option \<times> event list" where
  "run flt tr [] = (None, tr)"
| "run flt tr (Do ev # rest) =
     (case flt tr ev of
        Some e \<Rightarrow> (Some e, tr @ [ev])
      | None \<Rightarrow> run flt (tr @ [ev]) rest)"
| "run flt tr (Try ev # rest) = run flt (tr @ [ev]) rest"
| "run flt tr (Raise e # rest) = (Some e, tr)"

text \<open>
  The three generators yield lines, call the engine between two lines, or raise.
\<close>

datatype gen_item = Yield string | Call event | Throw exn

text \<open>
  What the collaborators return in one run: \<open>fault\<close> says, from the calls made so far
  and the call about to be made, whether that call raises; \<open>version\<close> is
  \<^verbatim>\<open>__version__\<close>; \<open>str_float\<close> and \<open>str_pfm\<close> are the renderings of a float and of
  the motif source inside an f-string; \<open>expanduser\<close> and \<open>dirname\<close> are the functions
  of \<^verbatim>\<open>os.path\<close>; \<open>fa_ids\<close>, \<open>fa_seq\<close> and \<open>fa_median_length\<close> are \<^verbatim>\<open>fa.ids\<close>,
  \<^verbatim>\<open>fa[seq_id]\<close> and \<^verbatim>\<open>fa.median_length()\<close> of the sequences read by \<^verbatim>\<open>as_fasta\<close>;
  \<open>motifs_read\<close> is the result of \<^verbatim>\<open>read_motifs\<close> and \<open>motif_ids\<close> the engine's
  \<^verbatim>\<open>motif_ids\<close>; \<open>counts\<close>, \<open>best_scores\<close>, \<open>best_matches\<close> and \<open>matches\<close> are the
  rows the iterators of \<^verbatim>\<open>count\<close>, \<^verbatim>\<open>best_score\<close>, \<^verbatim>\<open>best_match\<close> and \<^verbatim>\<open>scan\<close>
  yield, a match being (score, position, strand); \<open>table_index\<close> is the index read from
  the region file; \<open>region_len\<close> is the length of the sequence a region resolves to;
  \<open>random_interval st m\<close> is the draw of a random source in state \<open>st\<close> for the bound
  \<open>m\<close>, with the state it leaves, and \<open>np_random\<close> is the state of the global source
  \<^verbatim>\<open>np.random\<close> when the function is called. A \<^verbatim>\<open>random_state\<close> argument is the state of
  the source passed.
\<close>

record world =
  fault :: "event list \<Rightarrow> event \<Rightarrow> exn option"
  version :: string
  str_float :: "rat \<Rightarrow> string"
  str_pfm :: "pfm \<Rightarrow> string"
  expanduser :: "string \<Rightarrow> string"
  dirname :: "string \<Rightarrow> string"
  fa_ids :: "string list"
  fa_seq :: "string \<Rightarrow> string"
  fa_median_length :: rat
  motifs_read :: "motif list"
  motif_ids :: "string list"
  counts :: "int list list"
  best_scores :: "rat list list"
  best_matches :: "(rat \<times> int \<times> int) list list"
  matches :: "(rat \<times> int \<times> int) list list list"
  table_index :: "string list"
  region_len :: "string \<Rightarrow> nat"
  random_interval :: "nat \<Rightarrow> nat \<Rightarrow> nat \<times> nat"
  np_random :: nat

section \<open>Formatting a float\<close>

text \<open>
  \<^verbatim>\<open>"{:4f}".format(x)\<close>: presentation type \<^verbatim>\<open>f\<close> with the default precision of six
  digits, right-aligned in a field of minimal width four. A finite float is formatted from
  its exact value, rounded half to even.
\<close>

definition round_half_even :: "rat \<Rightarrow> int" where
  "round_half_even y =
     (let n = \<lfloor>y\<rfloor>; d = y - of_int n in
      if d < 1 / 2 then n else if 1 / 2 < d then n + 1 else if even n then n else n + 1)"

definition zfill :: "nat \<Rightarrow> string \<Rightarrow> string" where
  "zfill p s = replicate (p - length s) (CHR ''0'') @ s"

definition rjust :: "nat \<Rightarrow> string \<Rightarrow> string" where
  "rjust n s = replicate (n - length s) (CHR '' '') @ s"

definition format_f :: "nat \<Rightarrow> rat \<Rightarrow> string" where
  "format_f p x =
     (let m = nat (round_half_even (\<bar>x\<bar> * 10 ^ p)) in
      (if x < 0 then ''-'' else []) @ str_nat (m div 10 ^ p) @
      (if p = 0 then [] else ''.'' @ zfill p (str_nat (m mod 10 ^ p))))"

definition format_4f :: "rat \<Rightarrow> string" where
  "format_4f x = rjust 4 (format_f 6 x)"

section \<open>The streaming generators\<close>

text \<open>
  \<^verbatim>\<open>_scan_table\<close>, \<^verbatim>\<open>_scan_score_table\<close> and \<^verbatim>\<open>_scan_normal\<close>. The header is
  yielded before the engine is called, since a generator runs up to its first
  \<^verbatim>\<open>yield\<close>. \<^verbatim>\<open>fa.ids[i]\<close> raises \<^verbatim>\<open>IndexError\<close> when the engine yields more rows
  than there are sequences.
\<close>

definition table_header :: "motif list \<Rightarrow> string" where
  "table_header motifs = TAB @ join TAB (map motif_id motifs)"

fun table_rows :: "('a \<Rightarrow> string) \<Rightarrow> string list \<Rightarrow> nat \<Rightarrow> 'a list list \<Rightarrow> gen_item list" where
  "table_rows cell ids i [] = [Call (Next i)]"
| "table_rows cell ids i (r # rs) =
     Call (Next i) #
     (if i < length ids
      then Yield (ids ! i @ TAB @ join TAB (map cell r)) # table_rows cell ids (Suc i) rs
      else [Throw IndexError])"

definition scan_table :: "world \<Rightarrow> motif list \<Rightarrow> int \<Rightarrow> bool \<Rightarrow> gen_item list" where
  "scan_table w motifs nreport scan_rc =
     Yield (table_header motifs) #
     Call (Count (Some nreport) (Some scan_rc)) #
     table_rows str_int (fa_ids w) 0 (counts w)"

definition scan_score_table :: "world \<Rightarrow> motif list \<Rightarrow> bool \<Rightarrow> bool \<Rightarrow> bool \<Rightarrow> gen_item list" where
  "scan_score_table w motifs scan_rc zscore gcnorm =
     Yield (table_header motifs) #
     Call (BestScore (Some scan_rc) zscore gcnorm) #
     table_rows format_4f (fa_ids w) 0 (best_scores w)"

definition yield_line :: "exn + string \<Rightarrow> gen_item" where
  "yield_line r = (case r of Inl e \<Rightarrow> Throw e | Inr l \<Rightarrow> Yield l)"

definition result_lines ::
  "world \<Rightarrow> string \<Rightarrow> string \<Rightarrow> bool \<Rightarrow> motif list \<Rightarrow> (rat \<times> int \<times> int) list list \<Rightarrow> gen_item list" where
  "result_lines w seq seq_id bed motifs result =
     concat (map (\<lambda>(motif, ms).
        map (\<lambda>(score, pos, strand).
          yield_line (format_line (str_float w) seq seq_id motif score pos strand bed)) ms)
       (zip motifs result))"

fun normal_rows ::
  "world \<Rightarrow> motif list \<Rightarrow> bool \<Rightarrow> nat \<Rightarrow> (rat \<times> int \<times> int) list list list \<Rightarrow> gen_item list" where
  "normal_rows w motifs bed i [] = [Call (Next i)]"
| "normal_rows w motifs bed i (result # rest) =
     Call (Next i) #
     (if i < length (fa_ids w)
      then result_lines w (fa_seq w (fa_ids w ! i)) (fa_ids w ! i) bed motifs result @
           normal_rows w motifs bed (Suc i) rest
      else [Throw IndexError])"

definition scan_normal ::
  "world \<Rightarrow> motif list \<Rightarrow> int \<Rightarrow> bool \<Rightarrow> bool \<Rightarrow> bool \<Rightarrow> bool \<Rightarrow> gen_item list" where
  "scan_normal w motifs nreport scan_rc bed zscore gcnorm =
     Call (Scan nreport scan_rc zscore gcnorm) # normal_rows w motifs bed 0 (matches w)"

text \<open>
  \<^verbatim>\<open>for line in it: print(line, file=fo)\<close>: a yielded line is written to the sink, the
  generator's own calls and exceptions happen in between.
\<close>

fun print_item :: "handle \<Rightarrow> gen_item \<Rightarrow> step" where
  "print_item fo (Yield l) = Do (Write fo l)"
| "print_item fo (Call ev) = Do ev"
| "print_item fo (Throw e) = Raise e"

section \<open>scan_to_file\<close>

text \<open>
  The truth value of an optional string (\<^verbatim>\<open>if genome:\<close>), and the line
  \<^verbatim>\<open>if fpr is None and cutoff is None: fpr = FPR\<close>.
\<close>

definition truthy_str :: "string option \<Rightarrow> bool" where
  "truthy_str x = (case x of None \<Rightarrow> False | Some s \<Rightarrow> s \<noteq> [])"

definition effective_fpr :: "rat option \<Rightarrow> rat option \<Rightarrow> rat option" where
  "effective_fpr fpr cutoff = (if fpr = None \<and> cutoff = None then Some FPR else fpr)"

text \<open>
  The header block. The FPR line is printed under \<^verbatim>\<open>if fpr and not score_table\<close>, the
  threshold line under \<^verbatim>\<open>if cutoff is not None\<close>.
\<close>

definition fpr_line :: "world \<Rightarrow> rat \<Rightarrow> string \<Rightarrow> string" where
  "fpr_line w v src = ''# FPR: '' @ str_float w v @ '' ('' @ src @ '')''"

definition threshold_line :: "world \<Rightarrow> rat \<Rightarrow> string" where
  "threshold_line w c = ''# Threshold: '' @ str_float w c"

definition fpr_lines ::
  "world \<Rightarrow> rat option \<Rightarrow> bool \<Rightarrow> string option \<Rightarrow> string option \<Rightarrow> string list" where
  "fpr_lines w fpr score_table genome bgfile =
     (case fpr of
        None \<Rightarrow> []
      | Some v \<Rightarrow>
          if v \<noteq> 0 \<and> \<not> score_table then
            (case genome of
               Some g \<Rightarrow> [fpr_line w v g]
             | None \<Rightarrow>
                 (case bgfile of
                    None \<Rightarrow> []
                  | Some b \<Rightarrow> if b \<noteq> [] then [fpr_line w v b] else []))
          else [])"

definition threshold_lines :: "world \<Rightarrow> rat option \<Rightarrow> string list" where
  "threshold_lines w cutoff = (case cutoff of None \<Rightarrow> [] | Some c \<Rightarrow> [threshold_line w c])"

definition scoring_line :: "bool \<Rightarrow> bool \<Rightarrow> string" where
  "scoring_line zscore gcnorm =
     (if zscore then
        (if gcnorm then ''# Scoring: GC frequency normalized z-score''
         else ''# Scoring: normalized z-score'')
      else ''# Scoring: logodds score'')"

definition header_lines ::
  "world \<Rightarrow> string \<Rightarrow> pfm \<Rightarrow> rat option \<Rightarrow> rat option \<Rightarrow> bool \<Rightarrow> string option \<Rightarrow>
   string option \<Rightarrow> bool \<Rightarrow> bool \<Rightarrow> string list" where
  "header_lines w inputfile pfmfile fpr cutoff score_table bgfile genome zscore gcnorm =
     [''# GimmeMotifs version '' @ version w,
      ''# Input: '' @ inputfile,
      ''# Motifs: '' @ str_pfm w pfmfile] @
     fpr_lines w (effective_fpr fpr cutoff) score_table genome bgfile @
     threshold_lines w cutoff @
     [scoring_line zscore gcnorm]"

text \<open>
  Opening the sink (lines 248 to 260 of the source) and closing it (lines 317 to 321).
\<close>

definition sink_handle :: "world \<Rightarrow> sink \<Rightarrow> handle" where
  "sink_handle w filepath_or_buffer =
     (case filepath_or_buffer of
        NoSink \<Rightarrow> Stdout
      | Buffer b \<Rightarrow> Stream b
      | Path p \<Rightarrow> File (expanduser w p))"

definition open_steps :: "world \<Rightarrow> sink \<Rightarrow> step list" where
  "open_steps w filepath_or_buffer =
     (case filepath_or_buffer of
        NoSink \<Rightarrow> []
      | Buffer b \<Rightarrow> []
      | Path p \<Rightarrow> [Do (Makedirs (dirname w (expanduser w p))), Do (Open (expanduser w p))])"

definition should_close :: "sink \<Rightarrow> bool" where
  "should_close filepath_or_buffer =
     (case filepath_or_buffer of NoSink \<Rightarrow> False | Buffer b \<Rightarrow> False | Path p \<Rightarrow> True)"

text \<open>
  The configuration of the background and of the threshold (lines 289 to 296).
\<close>

definition background_steps :: "world \<Rightarrow> string option \<Rightarrow> string option \<Rightarrow> bool \<Rightarrow> step list" where
  "background_steps w genome bgfile gcnorm =
     (if truthy_str genome then
        [Do MedianLength, Do (SetBackground None genome (fa_median_length w) gcnorm)]
      else if truthy_str bgfile then
        [Do MedianLength, Do (SetBackground bgfile None (fa_median_length w) False)]
      else [])"

definition threshold_steps :: "bool \<Rightarrow> rat option \<Rightarrow> rat option \<Rightarrow> step list" where
  "threshold_steps score_table fpr cutoff =
     (if \<not> score_table then [Do (SetThreshold fpr cutoff)] else [])"

definition scan_lines ::
  "world \<Rightarrow> int \<Rightarrow> bool \<Rightarrow> bool \<Rightarrow> bool \<Rightarrow> bool \<Rightarrow> bool \<Rightarrow> bool \<Rightarrow> gen_item list" where
  "scan_lines w nreport bed scan_rc table score_table zscore gcnorm =
     (if table then scan_table w (motifs_read w) nreport scan_rc
      else if score_table then scan_score_table w (motifs_read w) scan_rc zscore gcnorm
      else scan_normal w (motifs_read w) nreport scan_rc bed zscore gcnorm)"

definition close_steps :: "world \<Rightarrow> sink \<Rightarrow> step list" where
  "close_steps w filepath_or_buffer =
     (if should_close filepath_or_buffer then [Try (Close (sink_handle w filepath_or_buffer))]
      else [])"

text \<open>
  The body of \<^verbatim>\<open>scan_to_file\<close> after \<^verbatim>\<open>check_motifs\<close>, in program order.
\<close>

definition scan_to_file_steps ::
  "world \<Rightarrow> string \<Rightarrow> pfm \<Rightarrow> sink \<Rightarrow> int \<Rightarrow> rat option \<Rightarrow> rat option \<Rightarrow> bool \<Rightarrow> bool \<Rightarrow> bool \<Rightarrow>
   bool \<Rightarrow> string option \<Rightarrow> string option \<Rightarrow> nat option \<Rightarrow> bool \<Rightarrow> bool \<Rightarrow> nat option \<Rightarrow>
   bool option \<Rightarrow> step list" where
  "scan_to_file_steps w inputfile pfmfile filepath_or_buffer nreport fpr cutoff bed scan_rc
       table score_table bgfile genome ncpus zscore gcnorm random_state progress =
     open_steps w filepath_or_buffer @
     map (\<lambda>l. Do (Write (sink_handle w filepath_or_buffer) l))
       (header_lines w inputfile pfmfile fpr cutoff score_table bgfile genome zscore gcnorm) @
     [Do (NewScanner ncpus random_state progress),
      Do (SetMotifs pfmfile),
      Do (SetGenome genome),
      Do (AsFasta inputfile genome)] @
     background_steps w genome bgfile gcnorm @
     threshold_steps score_table (effective_fpr fpr cutoff) cutoff @
     [Do (ReadMotifs pfmfile)] @
     map (print_item (sink_handle w filepath_or_buffer))
       (scan_lines w nreport bed scan_rc table score_table zscore gcnorm) @
     close_steps w filepath_or_buffer"

definition scan_to_file ::
  "host \<Rightarrow> world \<Rightarrow> string \<Rightarrow> pfm \<Rightarrow> sink \<Rightarrow> int \<Rightarrow> rat option \<Rightarrow> rat option \<Rightarrow> bool \<Rightarrow> bool \<Rightarrow>
   bool \<Rightarrow> bool \<Rightarrow> string option \<Rightarrow> string option \<Rightarrow> nat option \<Rightarrow> bool \<Rightarrow> bool \<Rightarrow>
   nat option \<Rightarrow> bool option \<Rightarrow> exn option \<times> event list" where
  "scan_to_file h w inputfile pfmfile filepath_or_buffer nreport fpr cutoff bed scan_rc
       table score_table bgfile genome ncpus zscore gcnorm random_state progress =
     (case check_motifs h pfmfile of
        Inl e \<Rightarrow> (Some e, [])
      | Inr pfm' \<Rightarrow>
          run (fault w) []
            (scan_to_file_steps w inputfile pfm' filepath_or_buffer nreport fpr cutoff bed
               scan_rc table score_table bgfile genome ncpus zscore gcnorm random_state
               progress))"

section \<open>numpy's choice\<close>

text \<open>
  \<^verbatim>\<open>RandomState.choice(a, size, replace)\<close> for a one-dimensional \<^verbatim>\<open>a\<close> and no weights,
  which is also \<^verbatim>\<open>np.random.choice\<close>, as numpy's \<^verbatim>\<open>mtrand\<close> implements it. Without replacement it returns \<^verbatim>\<open>a[permutation(len(a))[:size]]\<close>, where
  \<^verbatim>\<open>permutation(n)\<close> shuffles \<^verbatim>\<open>arange(n)\<close>: for \<^verbatim>\<open>i\<close> from \<^verbatim>\<open>n - 1\<close> down to \<^verbatim>\<open>1\<close>
  it draws \<^verbatim>\<open>j = random_interval(i)\<close> and exchanges the entries at \<^verbatim>\<open>i\<close> and \<^verbatim>\<open>j\<close>.
  With replacement it returns \<^verbatim>\<open>a[randint(0, len(a), size)]\<close>, one draw per entry.
  \<^verbatim>\<open>random_interval(m)\<close> returns a value from \<^verbatim>\<open>0\<close> to \<^verbatim>\<open>m\<close>, both included; the value
  a source delivers is reduced modulo \<^verbatim>\<open>m + 1\<close>, which leaves such a value as it is.
  numpy refuses an empty \<^verbatim>\<open>a\<close>, and a \<^verbatim>\<open>size\<close> above \<^verbatim>\<open>len(a)\<close> without replacement;
  the module calls it with \<^verbatim>\<open>size=1000\<close> on at least 1000 regions.
\<close>

fun interval_draws :: "(nat \<Rightarrow> nat \<Rightarrow> nat \<times> nat) \<Rightarrow> nat \<Rightarrow> nat \<Rightarrow> nat list" where
  "interval_draws itv st 0 = []"
| "interval_draws itv st (Suc i) =
     (case itv st (Suc i) of (j, st') \<Rightarrow> (j mod Suc (Suc i)) # interval_draws itv st' i)"

definition swap :: "nat \<Rightarrow> nat \<Rightarrow> 'a list \<Rightarrow> 'a list" where
  "swap i j xs = xs[i := xs ! j, j := xs ! i]"

fun shuffle :: "nat list \<Rightarrow> nat \<Rightarrow> 'a list \<Rightarrow> 'a list" where
  "shuffle (j # js) (Suc i) xs = shuffle js i (swap (Suc i) j xs)"
| "shuffle js i xs = xs"

definition permutation_with :: "nat list \<Rightarrow> nat \<Rightarrow> nat list" where
  "permutation_with js n = shuffle js (n - 1) [0..<n]"

definition np_permutation :: "(nat \<Rightarrow> nat \<Rightarrow> nat \<times> nat) \<Rightarrow> nat \<Rightarrow> nat \<Rightarrow> nat list" where
  "np_permutation itv st n = permutation_with (interval_draws itv st (n - 1)) n"

fun randint_draws :: "(nat \<Rightarrow> nat \<Rightarrow> nat \<times> nat) \<Rightarrow> nat \<Rightarrow> nat \<Rightarrow> nat \<Rightarrow> nat list" where
  "randint_draws itv st n 0 = []"
| "randint_draws itv st n (Suc k) =
     (case itv st (n - 1) of (j, st') \<Rightarrow> (j mod n) # randint_draws itv st' n k)"

definition np_choice ::
  "(nat \<Rightarrow> nat \<Rightarrow> nat \<times> nat) \<Rightarrow> nat \<Rightarrow> 'a list \<Rightarrow> nat \<Rightarrow> bool \<Rightarrow> 'a list" where
  "np_choice itv st a size' replace =
     (if replace then map ((!) a) (randint_draws itv st (length a) size')
      else map ((!) a) (take size' (np_permutation itv st (length a))))"

section \<open>scan_regionfile_to_table\<close>

definition endswith :: "string \<Rightarrow> string \<Rightarrow> bool" where
  "endswith s sfx = suffix sfx s"

text \<open>
  Lines 90 to 98: the random source, which is \<^verbatim>\<open>np.random\<close> unless one is passed, the
  regions whose lengths are measured, which are
  \<^verbatim>\<open>random.choice(regions, size=1000, replace=False)\<close> of 1000 regions or more, and
  \<^verbatim>\<open>int(np.median(lengths))\<close>. The median of an even number of values is the mean of
  the two middle ones; \<^verbatim>\<open>int\<close> truncates it. The median of no value is NaN, which
  \<^verbatim>\<open>int\<close> refuses.
\<close>

definition random_source :: "world \<Rightarrow> nat option \<Rightarrow> nat" where
  "random_source w random_state = (case random_state of None \<Rightarrow> np_random w | Some rs \<Rightarrow> rs)"

definition check_regions :: "world \<Rightarrow> nat option \<Rightarrow> string list \<Rightarrow> string list" where
  "check_regions w random_state regions =
     (if 1000 \<le> length regions then
        np_choice (random_interval w) (random_source w random_state) regions 1000 False
      else regions)"

definition median_int :: "nat list \<Rightarrow> exn + nat" where
  "median_int xs =
     (if xs = [] then Inl (ValueError ''cannot convert float NaN to integer'')
      else
        let s = sort xs; n = length xs in
        if odd n then Inr (s ! (n div 2))
        else Inr ((s ! (n div 2 - 1) + s ! (n div 2)) div 2))"

definition background_size :: "world \<Rightarrow> nat option \<Rightarrow> string list \<Rightarrow> exn + nat" where
  "background_size w random_state regions =
     median_int (map (region_len w) (check_regions w random_state regions))"

text \<open>
  \<^verbatim>\<open>for row in it: scores.append(row)\<close> requests every row and then the end of the
  iterator.
\<close>

definition fetch_steps :: "nat \<Rightarrow> step list" where
  "fetch_steps n = map (\<lambda>i. Do (Next i)) [0..<Suc n]"

text \<open>
  The data frame: row labels, column labels, the cells and the value type. The cells are
  kept as delivered; the rounding of a score to half precision is not modelled. pandas
  refuses data whose shape disagrees with the labels.
\<close>

datatype dtype = IntType | Float16

record table =
  index :: "string list"
  columns :: "string list"
  cells :: "rat list list"
  dtype :: dtype

definition read_steps :: "string \<Rightarrow> step list" where
  "read_steps input_table =
     (if endswith input_table ''feather'' then [Do (ReadFeather input_table)]
      else [Do (ReadTable input_table)])"

definition sample_steps :: "world \<Rightarrow> nat option \<Rightarrow> string list \<Rightarrow> step list" where
  "sample_steps w random_state regions =
     (if 1000 \<le> length regions then [Do (Choice random_state regions 1000 False)] else [])"

definition table_scan_steps :: "world \<Rightarrow> string \<Rightarrow> bool \<Rightarrow> bool \<Rightarrow> step list" where
  "table_scan_steps w scoring zscore gc =
     (if scoring = ''count'' then
        [Do (SetThreshold (Some FPR) None), Do (Count None None)] @
        fetch_steps (length (counts w))
      else
        [Do (BestScore None zscore gc)] @ fetch_steps (length (best_scores w)))"

definition scores_of :: "world \<Rightarrow> string \<Rightarrow> rat list list" where
  "scores_of w scoring =
     (if scoring = ''count'' then map (map of_int) (counts w) else best_scores w)"

definition shape_ok :: "rat list list \<Rightarrow> string list \<Rightarrow> string list \<Rightarrow> bool" where
  "shape_ok scores idx motif_names =
     (length scores = length idx \<and> (\<forall>row \<in> set scores. length row = length motif_names))"

definition dataframe_steps :: "world \<Rightarrow> string \<Rightarrow> step list" where
  "dataframe_steps w scoring =
     (if shape_ok (scores_of w scoring) (table_index w) (motif_ids w) then [Do DataFrame]
      else [Raise (ValueError ''Shape of passed values'')])"

definition regionfile_steps ::
  "world \<Rightarrow> string \<Rightarrow> string option \<Rightarrow> string \<Rightarrow> pfm \<Rightarrow> nat option \<Rightarrow> bool \<Rightarrow> bool \<Rightarrow>
   nat option \<Rightarrow> bool option \<Rightarrow> step list" where
  "regionfile_steps w input_table genome scoring pfm' ncpus zscore gc random_state progress =
     read_steps input_table @
     sample_steps w random_state (table_index w) @
     [Do (AsFastaRegions (check_regions w random_state (table_index w)) genome)] @
     (case background_size w random_state (table_index w) of
        Inl e \<Rightarrow> [Raise e]
      | Inr size' \<Rightarrow>
          [Do (NewScanner ncpus random_state progress),
           Do (SetMotifs pfm'),
           Do (SetGenome genome),
           Do (SetBackground None None (of_nat size') gc)] @
          table_scan_steps w scoring zscore gc @
          dataframe_steps w scoring)"

definition scan_regionfile_to_table ::
  "host \<Rightarrow> world \<Rightarrow> string \<Rightarrow> string option \<Rightarrow> string \<Rightarrow> pfm \<Rightarrow> nat option \<Rightarrow> bool \<Rightarrow> bool \<Rightarrow>
   nat option \<Rightarrow> bool option \<Rightarrow> (exn + table) \<times> event list" where
  "scan_regionfile_to_table h w input_table genome scoring pfmfile ncpus zscore gc
       random_state progress =
     (case check_motifs h pfmfile of
        Inl e \<Rightarrow> (Inl e, [])
      | Inr pfm' \<Rightarrow>
          (case run (fault w) []
                  (regionfile_steps w input_table genome scoring pfm' ncpus zscore gc
                     random_state progress) of
             (Some e, tr) \<Rightarrow> (Inl e, tr)
           | (None, tr) \<Rightarrow>
               (Inr \<lparr>index = table_index w, columns = motif_ids w,
                      cells = scores_of w scoring,
                      dtype = (if scoring = ''count'' then IntType else Float16)\<rparr>, tr)))"

section \<open>scan_to_best_match\<close>

text \<open>
  The calls of \<^verbatim>\<open>scan_to_best_match\<close>; the dictionary it returns is not modelled.
\<close>

definition is_str :: "pfm \<Rightarrow> bool" where
  "is_str p = (case p of PStr s \<Rightarrow> True | _ \<Rightarrow> False)"

definition best_match_steps ::
  "world \<Rightarrow> pfm \<Rightarrow> nat option \<Rightarrow> string option \<Rightarrow> bool \<Rightarrow> bool \<Rightarrow> bool \<Rightarrow> nat option \<Rightarrow>
   bool option \<Rightarrow> step list" where
  "best_match_steps w pfm' ncpus genome score zscore gc random_state progress =
     [Do (NewScanner ncpus random_state progress),
      Do (SetGenome genome),
      Do (SetMotifs pfm'),
      Do (SetThreshold None (Some 0))] @
     (if is_str pfm' then [Do (ReadMotifs pfm')] else []) @
     (if score then [Do (BestScore None zscore gc)] @ fetch_steps (length (best_scores w))
      else [Do (BestMatch zscore gc)] @ fetch_steps (length (best_matches w)))"

definition scan_to_best_match ::
  "host \<Rightarrow> world \<Rightarrow> string \<Rightarrow> pfm \<Rightarrow> nat option \<Rightarrow> string option \<Rightarrow> bool \<Rightarrow> bool \<Rightarrow> bool \<Rightarrow>
   nat option \<Rightarrow> bool option \<Rightarrow> exn option \<times> event list" where
  "scan_to_best_match h w fname pfmfile ncpus genome score zscore gc random_state progress =
     (case check_motifs h pfmfile of
        Inl e \<Rightarrow> (Some e, [])
      | Inr pfm' \<Rightarrow>
          run (fault w) []
            (best_match_steps w pfm' ncpus genome score zscore gc random_state progress))"

section \<open>Properties of runs\<close>

fun step_events :: "step \<Rightarrow> event list" where
  "step_events (Do ev) = [ev]"
| "step_events (Try ev) = [ev]"
| "step_events (Raise e) = []"

definition events_of :: "step list \<Rightarrow> event list" where
  "events_of steps = concat (map step_events steps)"

lemma events_of_simps [simp]:
  "events_of [] = []"
  "events_of (s # steps) = step_events s @ events_of steps"
  "events_of (xs @ ys) = events_of xs @ events_of ys"
  by (simp_all add: events_of_def)

lemma run_prefix: "prefix (snd (run flt tr steps)) (tr @ events_of steps)"
proof (induction steps arbitrary: tr)
  case Nil
  then show ?case by simp
next
  case (Cons s steps)
  show ?case
  proof (cases s)
    case (Do ev)
    show ?thesis
    proof (cases "flt tr ev")
      case None
      with Do Cons [of "tr @ [ev]"] show ?thesis by simp
    next
      case (Some e)
      with Do show ?thesis by simp
    qed
  next
    case (Try ev)
    with Cons [of "tr @ [ev]"] show ?thesis by simp
  next
    case (Raise e)
    then show ?thesis by simp
  qed
qed

lemma run_complete: "fst (run flt tr steps) = None \<Longrightarrow> snd (run flt tr steps) = tr @ events_of steps"
proof (induction steps arbitrary: tr)
  case Nil
  then show ?case by simp
next
  case (Cons s steps)
  show ?case
  proof (cases s)
    case (Do ev)
    show ?thesis
    proof (cases "flt tr ev")
      case None
      with Do Cons.prems Cons.IH [of "tr @ [ev]"] show ?thesis by simp
    next
      case (Some e)
      with Do Cons.prems show ?thesis by simp
    qed
  next
    case (Try ev)
    with Cons.prems Cons.IH [of "tr @ [ev]"] show ?thesis by simp
  next
    case (Raise e)
    with Cons.prems show ?thesis by simp
  qed
qed

lemma run_append:
  "run flt tr (xs @ ys) =
     (case run flt tr xs of
        (None, tr') \<Rightarrow> run flt tr' ys
      | (Some e, tr') \<Rightarrow> (Some e, tr'))"
proof (induction xs arbitrary: tr)
  case Nil
  then show ?case by simp
next
  case (Cons s xs)
  show ?case
  proof (cases s)
    case (Do ev)
    then show ?thesis using Cons [of "tr @ [ev]"] by (cases "flt tr ev") simp_all
  next
    case (Try ev)
    then show ?thesis using Cons [of "tr @ [ev]"] by simp
  next
    case (Raise e)
    then show ?thesis by simp
  qed
qed

lemma run_events_subset: "set (snd (run flt tr steps)) \<subseteq> set tr \<union> set (events_of steps)"
  using run_prefix [of flt tr steps] set_mono_prefix by fastforce

section \<open>The calls to the scanning engine\<close>

text \<open>
  The construction of the engine, its configuration calls and its result-producing calls,
  projected out of a trace.
\<close>

fun is_engine :: "event \<Rightarrow> bool" where
  "is_engine (NewScanner n r p) = True"
| "is_engine (SetMotifs m) = True"
| "is_engine (SetGenome g) = True"
| "is_engine (SetBackground f g s c) = True"
| "is_engine (SetThreshold f t) = True"
| "is_engine (Count n r) = True"
| "is_engine (BestScore r z g) = True"
| "is_engine (BestMatch z g) = True"
| "is_engine (Scan n r z g) = True"
| "is_engine ev = False"

definition engine_calls :: "event list \<Rightarrow> event list" where
  "engine_calls tr = filter is_engine tr"

lemma engine_calls_simps [simp]:
  "engine_calls [] = []"
  "engine_calls (ev # tr) = (if is_engine ev then ev # engine_calls tr else engine_calls tr)"
  "engine_calls (xs @ ys) = engine_calls xs @ engine_calls ys"
  by (simp_all add: engine_calls_def)

lemma engine_calls_prefix: "prefix xs ys \<Longrightarrow> prefix (engine_calls xs) (engine_calls ys)"
  unfolding engine_calls_def by (rule filter_mono_prefix)

lemma engine_calls_writes [simp]:
  "engine_calls (events_of (map (\<lambda>l. Do (Write fo l)) ls)) = []"
  by (induction ls) simp_all

lemma engine_calls_table_rows [simp]:
  "engine_calls (events_of (map (print_item fo) (table_rows cell ids i rows))) = []"
  by (induction rows arbitrary: i) simp_all

fun is_call :: "gen_item \<Rightarrow> bool" where
  "is_call (Call ev) = True"
| "is_call it = False"

lemma engine_calls_no_call:
  "\<forall>it \<in> set items. \<not> is_call it \<Longrightarrow>
   engine_calls (events_of (map (print_item fo) items)) = []"
proof (induction items)
  case Nil
  then show ?case by simp
next
  case (Cons it items)
  then show ?case by (cases it) simp_all
qed

lemma yield_line_no_call: "\<not> is_call (yield_line r)"
  by (cases r) (simp_all add: yield_line_def)

lemma result_lines_no_call:
  "\<forall>it \<in> set (result_lines w seq seq_id bed motifs result). \<not> is_call it"
  by (auto simp: result_lines_def yield_line_no_call)

lemma engine_calls_result_lines [simp]:
  "engine_calls (events_of (map (print_item fo) (result_lines w seq seq_id bed motifs result))) = []"
  by (rule engine_calls_no_call) (rule result_lines_no_call)

lemma engine_calls_normal_rows [simp]:
  "engine_calls (events_of (map (print_item fo) (normal_rows w motifs bed i results))) = []"
  by (induction results arbitrary: i) simp_all

definition producer :: "int \<Rightarrow> bool \<Rightarrow> bool \<Rightarrow> bool \<Rightarrow> bool \<Rightarrow> bool \<Rightarrow> event" where
  "producer nreport scan_rc table score_table zscore gcnorm =
     (if table then Count (Some nreport) (Some scan_rc)
      else if score_table then BestScore (Some scan_rc) zscore gcnorm
      else Scan nreport scan_rc zscore gcnorm)"

lemma engine_calls_scan_lines:
  "engine_calls (events_of (map (print_item fo)
      (scan_lines w nreport bed scan_rc table score_table zscore gcnorm)))
   = [producer nreport scan_rc table score_table zscore gcnorm]"
  by (simp add: scan_lines_def scan_table_def scan_score_table_def scan_normal_def producer_def)

lemma engine_calls_open_steps [simp]: "engine_calls (events_of (open_steps w s)) = []"
  by (cases s) (simp_all add: open_steps_def)

lemma engine_calls_close_steps [simp]: "engine_calls (events_of (close_steps w s)) = []"
  by (simp add: close_steps_def)

definition background_calls :: "world \<Rightarrow> string option \<Rightarrow> string option \<Rightarrow> bool \<Rightarrow> event list" where
  "background_calls w genome bgfile gcnorm =
     (if truthy_str genome then [SetBackground None genome (fa_median_length w) gcnorm]
      else if truthy_str bgfile then [SetBackground bgfile None (fa_median_length w) False]
      else [])"

definition threshold_calls :: "bool \<Rightarrow> rat option \<Rightarrow> rat option \<Rightarrow> event list" where
  "threshold_calls score_table fpr cutoff =
     (if score_table then [] else [SetThreshold (effective_fpr fpr cutoff) cutoff])"

lemma engine_calls_background_steps [simp]:
  "engine_calls (events_of (background_steps w genome bgfile gcnorm))
     = background_calls w genome bgfile gcnorm"
  by (simp add: background_steps_def background_calls_def)

lemma engine_calls_threshold_steps [simp]:
  "engine_calls (events_of (threshold_steps score_table (effective_fpr fpr cutoff) cutoff))
     = threshold_calls score_table fpr cutoff"
  by (simp add: threshold_steps_def threshold_calls_def)

lemma engine_calls_scan_to_file_steps:
  "engine_calls (events_of
      (scan_to_file_steps w inputfile pfmfile filepath_or_buffer nreport fpr cutoff bed scan_rc
         table score_table bgfile genome ncpus zscore gcnorm random_state progress))
   = [NewScanner ncpus random_state progress, SetMotifs pfmfile, SetGenome genome] @
     background_calls w genome bgfile gcnorm @
     threshold_calls score_table fpr cutoff @
     [producer nreport scan_rc table score_table zscore gcnorm]"
  by (simp add: scan_to_file_steps_def engine_calls_scan_lines)

lemma engine_calls_fetch_steps [simp]: "engine_calls (events_of (fetch_steps n)) = []"
proof -
  have "\<And>xs. engine_calls (events_of (map (\<lambda>i. Do (Next i)) xs)) = []"
  proof -
    fix xs :: "nat list"
    show "engine_calls (events_of (map (\<lambda>i. Do (Next i)) xs)) = []"
      by (induction xs) simp_all
  qed
  then show ?thesis unfolding fetch_steps_def by blast
qed

definition table_producer :: "string \<Rightarrow> bool \<Rightarrow> bool \<Rightarrow> event list" where
  "table_producer scoring zscore gc =
     (if scoring = ''count'' then [SetThreshold (Some FPR) None, Count None None]
      else [BestScore None zscore gc])"

lemma engine_calls_table_scan_steps [simp]:
  "engine_calls (events_of (table_scan_steps w scoring zscore gc)) = table_producer scoring zscore gc"
  by (simp add: table_scan_steps_def table_producer_def)

lemma engine_calls_read_steps [simp]: "engine_calls (events_of (read_steps input_table)) = []"
  by (simp add: read_steps_def)

lemma engine_calls_sample_steps [simp]:
  "engine_calls (events_of (sample_steps w random_state regions)) = []"
  by (simp add: sample_steps_def)

lemma engine_calls_dataframe_steps [simp]:
  "engine_calls (events_of (dataframe_steps w scoring)) = []"
  by (simp add: dataframe_steps_def)

lemma engine_calls_regionfile_steps:
  "engine_calls (events_of
      (regionfile_steps w input_table genome scoring pfmfile ncpus zscore gc random_state progress))
   = (case background_size w random_state (table_index w) of
        Inl e \<Rightarrow> []
      | Inr size' \<Rightarrow>
          [NewScanner ncpus random_state progress, SetMotifs pfmfile, SetGenome genome,
           SetBackground None None (of_nat size') gc] @ table_producer scoring zscore gc)"
  by (simp add: regionfile_steps_def split: sum.splits)

lemma engine_calls_best_match_steps:
  "engine_calls (events_of
      (best_match_steps w pfmfile ncpus genome score zscore gc random_state progress))
   = [NewScanner ncpus random_state progress, SetGenome genome, SetMotifs pfmfile,
      SetThreshold None (Some 0),
      (if score then BestScore None zscore gc else BestMatch zscore gc)]"
  by (simp add: best_match_steps_def)

section \<open>An example world\<close>

text \<open>
  A world in which no call raises, with one sequence and two motifs; \<open>example_repr\<close> is
  \<^verbatim>\<open>repr\<close> on the floats the examples print.
\<close>

definition quiet :: "event list \<Rightarrow> event \<Rightarrow> exn option" where
  "quiet tr ev = None"

definition example_repr :: "rat \<Rightarrow> string" where
  "example_repr x = (if x = 1 / 100 then ''0.01'' else format_f 1 x)"

definition example_motifs :: "motif list" where
  "example_motifs = [\<lparr>motif_id = ''m1'', motif_len = 8\<rparr>, \<lparr>motif_id = ''m2'', motif_len = 6\<rparr>]"

definition example_world :: world where
  "example_world =
     \<lparr>fault = quiet, version = ''0.17.0'', str_float = example_repr,
      str_pfm = (\<lambda>p. case p of PStr s \<Rightarrow> s | _ \<Rightarrow> ''[m1, m2]''),
      expanduser = (\<lambda>p. p), dirname = (\<lambda>p. ''out''),
      fa_ids = [''seq1''], fa_seq = (\<lambda>s. ''ACGTACGTACGTACGTACGT''), fa_median_length = 20,
      motifs_read = example_motifs, motif_ids = [''m1'', ''m2''],
      counts = [[1, 0]], best_scores = [[3 / 2, 1 / 4]],
      best_matches = [[(3 / 2, 5, 1), (1 / 4, 0, - 1)]],
      matches = [[[(3 / 2, 5, 1)], []]],
      table_index = [''chr1:0-20''], region_len = (\<lambda>r. 20),
      random_interval = (\<lambda>st m. (st, Suc st)), np_random = 0\<rparr>"

lemma round_half_even_int: "round_half_even (of_int k) = k"
  by (simp add: round_half_even_def)

lemma str_nat_digit: "n < 10 \<Longrightarrow> str_nat n = [digit_char n]"
  by (subst str_nat.simps) simp

lemma str_nat_1 : "str_nat (Suc 0) = ''1''"
  by (simp add: str_nat_digit digit_char_def)

lemma str_nat_0 : "str_nat 0 = ''0''"
  by (simp add: str_nat_digit digit_char_def)

lemma format_4f_three_halves: "format_4f (3 / 2) = ''1.500000''"
proof -
  have r: "round_half_even (\<bar>3 / 2\<bar> * 10 ^ 6) = 1500000"
    by (simp add: round_half_even_def Let_def)
  have d: "(1500000::nat) div 10 ^ 6 = 1" "(1500000::nat) mod 10 ^ 6 = 500000"
    by simp_all
  have n: "str_nat 500000 = ''500000''"
    by (simp add: str_nat.simps digit_char_def)
  have "format_f 6 (3 / 2) = ''1.500000''"
    unfolding format_f_def Let_def r using str_nat_1 by (simp add: d n zfill_def)
  then show ?thesis by (simp add: format_4f_def rjust_def)
qed

lemma format_4f_quarter: "format_4f (1 / 4) = ''0.250000''"
proof -
  have r: "round_half_even (\<bar>1 / 4\<bar> * 10 ^ 6) = 250000"
    by (simp add: round_half_even_def Let_def)
  have d: "(250000::nat) div 10 ^ 6 = 0" "(250000::nat) mod 10 ^ 6 = 250000"
    by simp_all
  have n: "str_nat 250000 = ''250000''"
    by (simp add: str_nat.simps digit_char_def)
  have "format_f 6 (1 / 4) = ''0.250000''"
    unfolding format_f_def Let_def r using str_nat_0 by (simp add: d n zfill_def)
  then show ?thesis by (simp add: format_4f_def rjust_def)
qed

lemma format_f4_three_halves: "format_f 4 (3 / 2) = ''1.5000''"
proof -
  have r: "round_half_even (\<bar>3 / 2\<bar> * 10 ^ 4) = 15000"
    by (simp add: round_half_even_def Let_def)
  have d: "(15000::nat) div 10 ^ 4 = 1" "(15000::nat) mod 10 ^ 4 = 5000"
    by simp_all
  have n: "str_nat 5000 = ''5000''"
    by (simp add: str_nat.simps digit_char_def)
  show ?thesis
    unfolding format_f_def Let_def r using str_nat_1 by (simp add: d n zfill_def)
qed

text \<open>
  Claim C8. In \<^verbatim>\<open>_scan_score_table\<close> every data row is the sequence identifier followed
  by one best score per motif, in motif order, each rendered with exactly four decimal
  digits. The rows and their order are as claimed, but the format \<^verbatim>\<open>"{:4f}"\<close> sets the
  field width and not the precision: the score 1.5 is written \<^verbatim>\<open>1.500000\<close>, where four
  decimal digits (\<^verbatim>\<open>"{:.4f}"\<close>) would give \<^verbatim>\<open>1.5000\<close>.
\<close>

theorem scan_score_table_six_digits:
  "scan_score_table example_world example_motifs True False False
     = [Yield (TAB @ ''m1'' @ TAB @ ''m2''),
        Call (BestScore (Some True) False False),
        Call (Next 0),
        Yield (''seq1'' @ TAB @ ''1.500000'' @ TAB @ ''0.250000''),
        Call (Next 1)]
   \<and> format_4f (3 / 2) = ''1.500000''
   \<and> format_f 4 (3 / 2) = ''1.5000''"
  by (simp add: scan_score_table_def table_header_def example_world_def example_motifs_def
      format_4f_three_halves format_4f_quarter format_f4_three_halves)

definition example_host :: host where
  "example_host = \<lparr>motif_db = None, motif_dir = ''/db'', path_exists = (\<lambda>p. p = ''m.pfm'')\<rparr>"

lemma example_repr_5: "example_repr 5 = ''5.0''"
proof -
  have r: "round_half_even (\<bar>5\<bar> * 10 ^ 1) = 50"
    using round_half_even_int [of 50] by simp
  have n: "str_nat 5 = ''5''" "str_nat 0 = ''0''"
    by (simp_all add: str_nat_digit digit_char_def)
  have "format_f 1 5 = ''5.0''"
    unfolding format_f_def Let_def r by (simp add: n zfill_def)
  then show ?thesis by (simp add: example_repr_def)
qed

lemma example_check: "check_motifs example_host (PStr ''m.pfm'') = Inr (PStr ''m.pfm'')"
  by (simp add: example_host_def check_exists_def)

text \<open>
  Claim C1. In \<^verbatim>\<open>scan_to_file\<close> with \<^verbatim>\<open>score_table=True\<close> no threshold is set on the engine
  and the header has neither an FPR line nor a threshold line, whatever \<^verbatim>\<open>fpr\<close> and
  \<^verbatim>\<open>cutoff\<close> are. The run below has \<^verbatim>\<open>score_table=True\<close>, \<^verbatim>\<open>fpr=0.01\<close> and
  \<^verbatim>\<open>cutoff=5.0\<close>: \<^verbatim>\<open>set_threshold\<close> is not called and there is no FPR line, but the
  header carries the line \<^verbatim>\<open># Threshold: 5.0\<close>, since that line is printed under
  \<^verbatim>\<open>if cutoff is not None\<close> alone.
\<close>

theorem scan_to_file_score_table_threshold_line:
  "scan_to_file example_host example_world ''in.fa'' (PStr ''m.pfm'') NoSink 1
       (Some (1 / 100)) (Some 5) False True False True None (Some ''hg38'') None True True
       None None
     = (None,
        [Write Stdout ''# GimmeMotifs version 0.17.0'',
         Write Stdout ''# Input: in.fa'',
         Write Stdout ''# Motifs: m.pfm'',
         Write Stdout ''# Threshold: 5.0'',
         Write Stdout ''# Scoring: GC frequency normalized z-score'',
         NewScanner None None None,
         SetMotifs (PStr ''m.pfm''),
         SetGenome (Some ''hg38''),
         AsFasta ''in.fa'' (Some ''hg38''),
         MedianLength,
         SetBackground None (Some ''hg38'') 20 True,
         ReadMotifs (PStr ''m.pfm''),
         Write Stdout (TAB @ ''m1'' @ TAB @ ''m2''),
         BestScore (Some True) True True,
         Next 0,
         Write Stdout (''seq1'' @ TAB @ ''1.500000'' @ TAB @ ''0.250000''),
         Next 1])"
proof -
  have h: "header_lines example_world ''in.fa'' (PStr ''m.pfm'') (Some (1 / 100)) (Some 5) True
             None (Some ''hg38'') True True
           = [''# GimmeMotifs version 0.17.0'', ''# Input: in.fa'', ''# Motifs: m.pfm'',
              ''# Threshold: 5.0'', ''# Scoring: GC frequency normalized z-score'']"
    by (simp add: header_lines_def fpr_lines_def effective_fpr_def threshold_lines_def
        threshold_line_def scoring_line_def example_world_def example_repr_5)
  have g: "scan_lines example_world 1 False True False True True True
           = [Yield (TAB @ ''m1'' @ TAB @ ''m2''),
              Call (BestScore (Some True) True True),
              Call (Next 0),
              Yield (''seq1'' @ TAB @ ''1.500000'' @ TAB @ ''0.250000''),
              Call (Next 1)]"
    by (simp add: scan_lines_def scan_score_table_def table_header_def example_world_def
        example_motifs_def format_4f_three_halves format_4f_quarter)
  have f: "fault example_world = quiet" "fa_median_length example_world = 20"
    by (simp_all add: example_world_def)
  show ?thesis
    unfolding scan_to_file_def example_check
    by (simp add: scan_to_file_steps_def h g f quiet_def
        open_steps_def sink_handle_def background_steps_def truthy_str_def threshold_steps_def
        close_steps_def should_close_def)
qed

section \<open>Properties of scan_to_file\<close>

lemma run_no_raise: "fst (run flt tr steps) = None \<Longrightarrow> Raise e \<notin> set steps"
proof (induction steps arbitrary: tr)
  case Nil
  then show ?case by simp
next
  case (Cons s steps)
  show ?case
  proof (cases s)
    case (Do ev)
    with Cons.prems Cons.IH [of "tr @ [ev]"] show ?thesis
      by (cases "flt tr ev") simp_all
  next
    case (Try ev)
    with Cons.prems Cons.IH [of "tr @ [ev]"] show ?thesis by simp
  next
    case (Raise e')
    with Cons.prems show ?thesis by simp
  qed
qed

lemma run_quiet:
  "(\<forall>e. Raise e \<notin> set steps) \<Longrightarrow> run quiet tr steps = (None, tr @ events_of steps)"
proof (induction steps arbitrary: tr)
  case Nil
  then show ?case by simp
next
  case (Cons s steps)
  then show ?case by (cases s) (auto simp: quiet_def)
qed

lemma engine_event_in_calls: "ev \<in> set tr \<Longrightarrow> is_engine ev \<Longrightarrow> ev \<in> set (engine_calls tr)"
  by (simp add: engine_calls_def)

lemma run_engine_calls_prefix:
  "prefix (engine_calls (snd (run flt [] steps))) (engine_calls (events_of steps))"
  using run_prefix [of flt "[]" steps] engine_calls_prefix by fastforce

lemma run_engine_calls_complete:
  "fst (run flt [] steps) = None \<Longrightarrow>
   engine_calls (snd (run flt [] steps)) = engine_calls (events_of steps)"
  using run_complete [of flt "[]" steps] by simp

definition file_calls ::
  "world \<Rightarrow> pfm \<Rightarrow> int \<Rightarrow> rat option \<Rightarrow> rat option \<Rightarrow> bool \<Rightarrow> bool \<Rightarrow> bool \<Rightarrow> string option \<Rightarrow>
   string option \<Rightarrow> nat option \<Rightarrow> bool \<Rightarrow> bool \<Rightarrow> nat option \<Rightarrow> bool option \<Rightarrow> event list" where
  "file_calls w pfmfile nreport fpr cutoff scan_rc table score_table bgfile genome ncpus zscore
       gcnorm random_state progress =
     [NewScanner ncpus random_state progress, SetMotifs pfmfile, SetGenome genome] @
     background_calls w genome bgfile gcnorm @
     threshold_calls score_table fpr cutoff @
     [producer nreport scan_rc table score_table zscore gcnorm]"

lemma scan_to_file_calls:
  assumes "check_motifs h pfmfile = Inr pfm'"
  shows "prefix
           (engine_calls (snd (scan_to_file h w inputfile pfmfile filepath_or_buffer nreport fpr
              cutoff bed scan_rc table score_table bgfile genome ncpus zscore gcnorm
              random_state progress)))
           (file_calls w pfm' nreport fpr cutoff scan_rc table score_table bgfile genome ncpus
              zscore gcnorm random_state progress)"
    and "fst (scan_to_file h w inputfile pfmfile filepath_or_buffer nreport fpr
              cutoff bed scan_rc table score_table bgfile genome ncpus zscore gcnorm
              random_state progress) = None \<Longrightarrow>
         engine_calls (snd (scan_to_file h w inputfile pfmfile filepath_or_buffer nreport fpr
              cutoff bed scan_rc table score_table bgfile genome ncpus zscore gcnorm
              random_state progress))
           = file_calls w pfm' nreport fpr cutoff scan_rc table score_table bgfile genome ncpus
              zscore gcnorm random_state progress"
  using assms
    run_engine_calls_prefix [of "fault w" "scan_to_file_steps w inputfile pfm' filepath_or_buffer
      nreport fpr cutoff bed scan_rc table score_table bgfile genome ncpus zscore gcnorm
      random_state progress"]
    run_engine_calls_complete [of "fault w" "scan_to_file_steps w inputfile pfm'
      filepath_or_buffer nreport fpr cutoff bed scan_rc table score_table bgfile genome ncpus
      zscore gcnorm random_state progress"]
  by (simp_all add: scan_to_file_def engine_calls_scan_to_file_steps file_calls_def)

lemma scan_to_file_rejected:
  "check_motifs h pfmfile = Inl e \<Longrightarrow>
   scan_to_file h w inputfile pfmfile filepath_or_buffer nreport fpr cutoff bed scan_rc table
     score_table bgfile genome ncpus zscore gcnorm random_state progress = (Some e, [])"
  by (simp add: scan_to_file_def)

lemma scan_to_file_engine_event:
  assumes "ev \<in> set (snd (scan_to_file h w inputfile pfmfile filepath_or_buffer nreport fpr
              cutoff bed scan_rc table score_table bgfile genome ncpus zscore gcnorm
              random_state progress))"
    and "is_engine ev"
  shows "\<exists>pfm'. check_motifs h pfmfile = Inr pfm' \<and>
           ev \<in> set (file_calls w pfm' nreport fpr cutoff scan_rc table score_table bgfile
              genome ncpus zscore gcnorm random_state progress)"
proof (cases "check_motifs h pfmfile")
  case (Inl e)
  with assms(1) show ?thesis by (simp add: scan_to_file_rejected)
next
  case (Inr pfm')
  from assms have "ev \<in> set (engine_calls (snd (scan_to_file h w inputfile pfmfile
      filepath_or_buffer nreport fpr cutoff bed scan_rc table score_table bgfile genome ncpus
      zscore gcnorm random_state progress)))"
    by (rule engine_event_in_calls)
  with scan_to_file_calls(1) [OF Inr] have "ev \<in> set (file_calls w pfm' nreport fpr cutoff
      scan_rc table score_table bgfile genome ncpus zscore gcnorm random_state progress)"
    using set_mono_prefix by blast
  with Inr show ?thesis by blast
qed

lemma scan_to_file_completed:
  assumes "fst (scan_to_file h w inputfile pfmfile filepath_or_buffer nreport fpr
              cutoff bed scan_rc table score_table bgfile genome ncpus zscore gcnorm
              random_state progress) = None"
  shows "\<exists>pfm'. check_motifs h pfmfile = Inr pfm' \<and>
           engine_calls (snd (scan_to_file h w inputfile pfmfile filepath_or_buffer nreport fpr
              cutoff bed scan_rc table score_table bgfile genome ncpus zscore gcnorm
              random_state progress))
           = file_calls w pfm' nreport fpr cutoff scan_rc table score_table bgfile genome ncpus
              zscore gcnorm random_state progress"
proof (cases "check_motifs h pfmfile")
  case (Inl e)
  with assms show ?thesis by (simp add: scan_to_file_rejected)
next
  case (Inr pfm')
  with scan_to_file_calls(2) [OF Inr assms] show ?thesis by blast
qed

fun is_set_background :: "event \<Rightarrow> bool" where
  "is_set_background (SetBackground f g s c) = True"
| "is_set_background ev = False"

fun is_set_threshold :: "event \<Rightarrow> bool" where
  "is_set_threshold (SetThreshold f t) = True"
| "is_set_threshold ev = False"

lemma is_set_background_engine: "is_set_background ev \<Longrightarrow> is_engine ev"
  by (cases ev) simp_all

lemma is_set_threshold_engine: "is_set_threshold ev \<Longrightarrow> is_engine ev"
  by (cases ev) simp_all

lemma producer_kind [simp]:
  "\<not> is_set_background (producer nreport scan_rc table score_table zscore gcnorm)"
  "\<not> is_set_threshold (producer nreport scan_rc table score_table zscore gcnorm)"
  by (simp_all add: producer_def)

lemma file_calls_background:
  "ev \<in> set (file_calls w pfm' nreport fpr cutoff scan_rc table score_table bgfile genome ncpus
      zscore gcnorm random_state progress) \<Longrightarrow> is_set_background ev \<Longrightarrow>
   ev \<in> set (background_calls w genome bgfile gcnorm)"
  by (auto simp: file_calls_def threshold_calls_def split: if_splits)

lemma file_calls_threshold:
  "ev \<in> set (file_calls w pfm' nreport fpr cutoff scan_rc table score_table bgfile genome ncpus
      zscore gcnorm random_state progress) \<Longrightarrow> is_set_threshold ev \<Longrightarrow>
   ev \<in> set (threshold_calls score_table fpr cutoff)"
  by (auto simp: file_calls_def background_calls_def split: if_splits)

text \<open>
  Claim C10. In \<^verbatim>\<open>scan_to_file\<close>, when no genome is given but a background file is, the
  background is configured once, from the file, with \<^verbatim>\<open>gc=False\<close> whatever \<^verbatim>\<open>gcnorm\<close>
  is; when neither is given, \<^verbatim>\<open>set_background\<close> is not called at all. This holds for
  every run, whichever call raises.
\<close>

theorem scan_to_file_background:
  "(\<not> truthy_str genome \<and> truthy_str bgfile \<longrightarrow>
      (\<forall>ev \<in> set (snd (scan_to_file h w inputfile pfmfile filepath_or_buffer nreport fpr cutoff
            bed scan_rc table score_table bgfile genome ncpus zscore gcnorm random_state
            progress)).
          is_set_background ev \<longrightarrow> ev = SetBackground bgfile None (fa_median_length w) False)
      \<and> (fst (scan_to_file h w inputfile pfmfile filepath_or_buffer nreport fpr cutoff
            bed scan_rc table score_table bgfile genome ncpus zscore gcnorm random_state
            progress) = None \<longrightarrow>
          SetBackground bgfile None (fa_median_length w) False
            \<in> set (snd (scan_to_file h w inputfile pfmfile filepath_or_buffer nreport fpr cutoff
                 bed scan_rc table score_table bgfile genome ncpus zscore gcnorm random_state
                 progress))))
   \<and> (\<not> truthy_str genome \<and> \<not> truthy_str bgfile \<longrightarrow>
      (\<forall>ev \<in> set (snd (scan_to_file h w inputfile pfmfile filepath_or_buffer nreport fpr cutoff
            bed scan_rc table score_table bgfile genome ncpus zscore gcnorm random_state
            progress)).
          \<not> is_set_background ev))"
proof -
  let ?r = "scan_to_file h w inputfile pfmfile filepath_or_buffer nreport fpr cutoff
            bed scan_rc table score_table bgfile genome ncpus zscore gcnorm random_state
            progress"
  have bg: "ev \<in> set (background_calls w genome bgfile gcnorm)"
    if "ev \<in> set (snd ?r)" "is_set_background ev" for ev
    using scan_to_file_engine_event [OF that(1) is_set_background_engine [OF that(2)]]
      file_calls_background that(2) by blast
  have a: "ev = SetBackground bgfile None (fa_median_length w) False"
    if "\<not> truthy_str genome" "truthy_str bgfile" "ev \<in> set (snd ?r)" "is_set_background ev" for ev
    using bg [OF that(3,4)] that(1,2) by (simp add: background_calls_def)
  have b: "SetBackground bgfile None (fa_median_length w) False \<in> set (snd ?r)"
    if "\<not> truthy_str genome" "truthy_str bgfile" "fst ?r = None"
  proof -
    from scan_to_file_completed [OF that(3)] obtain pfm' where
      e: "engine_calls (snd ?r) = file_calls w pfm' nreport fpr cutoff scan_rc table score_table
            bgfile genome ncpus zscore gcnorm random_state progress"
      by blast
    have "SetBackground bgfile None (fa_median_length w) False \<in> set (engine_calls (snd ?r))"
      unfolding e using that(1,2) by (simp add: file_calls_def background_calls_def)
    then show ?thesis by (simp add: engine_calls_def)
  qed
  have c: "\<not> is_set_background ev"
    if "\<not> truthy_str genome" "\<not> truthy_str bgfile" "ev \<in> set (snd ?r)" for ev
  proof
    assume "is_set_background ev"
    from bg [OF that(3) this] that(1,2) show False by (simp add: background_calls_def)
  qed
  from a b c show ?thesis by blast
qed

lemma example_world_fields:
  "fault example_world = quiet" "fa_median_length example_world = 20"
  "expanduser example_world = (\<lambda>p. p)" "dirname example_world = (\<lambda>p. ''out'')"
  "version example_world = ''0.17.0''" "motifs_read example_world = example_motifs"
  "fa_ids example_world = [''seq1'']" "counts example_world = [[1, 0]]"
  "best_scores example_world = [[3 / 2, 1 / 4]]"
  "best_matches example_world = [[(3 / 2, 5, 1), (1 / 4, 0, - 1)]]"
  "table_index example_world = [''chr1:0-20'']" "motif_ids example_world = [''m1'', ''m2'']"
  "region_len example_world = (\<lambda>r. 20)"
  by (simp_all add: example_world_def)

lemma example_count_lines:
  "scan_lines example_world nreport bed scan_rc True score_table zscore gcnorm
     = [Yield (TAB @ ''m1'' @ TAB @ ''m2''),
        Call (Count (Some nreport) (Some scan_rc)),
        Call (Next 0),
        Yield (''seq1'' @ TAB @ ''1'' @ TAB @ ''0''),
        Call (Next 1)]"
  by (simp add: scan_lines_def scan_table_def table_header_def example_world_fields
      example_motifs_def str_int_def str_nat_0 str_nat_1)

lemma example_count_run:
  "scan_to_file example_host example_world inputfile (PStr ''m.pfm'') filepath_or_buffer nreport
       fpr cutoff bed scan_rc True score_table bgfile genome ncpus zscore gcnorm random_state
       progress
     = (None, events_of (scan_to_file_steps example_world inputfile (PStr ''m.pfm'')
         filepath_or_buffer nreport fpr cutoff bed scan_rc True score_table bgfile genome ncpus
         zscore gcnorm random_state progress))"
proof -
  have "\<forall>e. Raise e \<notin> set (scan_to_file_steps example_world inputfile (PStr ''m.pfm'')
         filepath_or_buffer nreport fpr cutoff bed scan_rc True score_table bgfile genome ncpus
         zscore gcnorm random_state progress)"
    by (cases filepath_or_buffer)
       (auto simp: scan_to_file_steps_def example_count_lines open_steps_def
          background_steps_def threshold_steps_def close_steps_def)
  from run_quiet [OF this, of "[]"] show ?thesis
    unfolding scan_to_file_def example_check by (simp add: example_world_fields)
qed

theorem scan_to_file_background_witness:
  "\<not> truthy_str None \<and> truthy_str (Some ''bg.fa'')
   \<and> fst (scan_to_file example_host example_world ''in.fa'' (PStr ''m.pfm'') NoSink 1
        None None False True True False (Some ''bg.fa'') None None True True None None) = None
   \<and> SetBackground (Some ''bg.fa'') None 20 False
       \<in> set (snd (scan_to_file example_host example_world ''in.fa'' (PStr ''m.pfm'') NoSink 1
            None None False True True False (Some ''bg.fa'') None None True True None None))
   \<and> filter is_set_background
        (snd (scan_to_file example_host example_world ''in.fa'' (PStr ''m.pfm'') NoSink 1
            None None False True True False (Some ''bg.fa'') None None True True None None))
       = [SetBackground (Some ''bg.fa'') None 20 False]
   \<and> filter is_set_background
        (snd (scan_to_file example_host example_world ''in.fa'' (PStr ''m.pfm'') NoSink 1
            None None False True True False None None None True True None None))
       = []"
proof -
  have t: "\<not> truthy_str None" "truthy_str (Some ''bg.fa'')"
    by (simp_all add: truthy_str_def)
  have c: "fst (scan_to_file example_host example_world ''in.fa'' (PStr ''m.pfm'') NoSink 1
        None None False True True False (Some ''bg.fa'') None None True True None None) = None"
    by (simp add: example_count_run)
  note a = scan_to_file_background [of None "Some ''bg.fa''" example_host example_world
      "''in.fa''" "PStr ''m.pfm''" NoSink 1 None None False True True False None True True None
      None]
  note b = scan_to_file_background [of None None example_host example_world
      "''in.fa''" "PStr ''m.pfm''" NoSink 1 None None False True True False None True True None
      None]
  have m: "SetBackground (Some ''bg.fa'') None 20 False
       \<in> set (snd (scan_to_file example_host example_world ''in.fa'' (PStr ''m.pfm'') NoSink 1
            None None False True True False (Some ''bg.fa'') None None True True None None))"
    using a t c by (simp add: example_world_fields)
  have e: "filter is_set_background
        (snd (scan_to_file example_host example_world ''in.fa'' (PStr ''m.pfm'') NoSink 1
            None None False True True False None None None True True None None)) = []"
    using b t by (simp add: filter_empty_conv)
  have f: "filter is_set_background
        (snd (scan_to_file example_host example_world ''in.fa'' (PStr ''m.pfm'') NoSink 1
            None None False True True False (Some ''bg.fa'') None None True True None None))
       = [SetBackground (Some ''bg.fa'') None 20 False]"
    by (simp add: example_count_run scan_to_file_steps_def example_count_lines open_steps_def
        sink_handle_def background_steps_def threshold_steps_def close_steps_def
        should_close_def header_lines_def fpr_lines_def threshold_lines_def
        effective_fpr_def FPR_def example_world_fields t)
  from t c m e f show ?thesis by blast
qed

section \<open>Properties of scan_regionfile_to_table\<close>

definition table_calls ::
  "world \<Rightarrow> string option \<Rightarrow> string \<Rightarrow> pfm \<Rightarrow> nat option \<Rightarrow> bool \<Rightarrow> bool \<Rightarrow> nat option \<Rightarrow>
   bool option \<Rightarrow> event list" where
  "table_calls w genome scoring pfmfile ncpus zscore gc random_state progress =
     (case background_size w random_state (table_index w) of
        Inl e \<Rightarrow> []
      | Inr size' \<Rightarrow>
          [NewScanner ncpus random_state progress, SetMotifs pfmfile, SetGenome genome,
           SetBackground None None (of_nat size') gc] @ table_producer scoring zscore gc)"

lemma regionfile_rejected:
  "check_motifs h pfmfile = Inl e \<Longrightarrow>
   scan_regionfile_to_table h w input_table genome scoring pfmfile ncpus zscore gc random_state
     progress = (Inl e, [])"
  by (simp add: scan_regionfile_to_table_def)

lemma regionfile_run:
  assumes "check_motifs h pfmfile = Inr pfm'"
  shows "snd (scan_regionfile_to_table h w input_table genome scoring pfmfile ncpus zscore gc
           random_state progress)
         = snd (run (fault w) [] (regionfile_steps w input_table genome scoring pfm' ncpus zscore
             gc random_state progress))"
    and "(\<exists>df. fst (scan_regionfile_to_table h w input_table genome scoring pfmfile ncpus zscore
           gc random_state progress) = Inr df)
         \<longleftrightarrow> fst (run (fault w) [] (regionfile_steps w input_table genome scoring pfm' ncpus
             zscore gc random_state progress)) = None"
  using assms
  by (auto simp: scan_regionfile_to_table_def split: prod.splits option.splits)

lemma regionfile_calls:
  assumes "check_motifs h pfmfile = Inr pfm'"
  shows "prefix
           (engine_calls (snd (scan_regionfile_to_table h w input_table genome scoring pfmfile
              ncpus zscore gc random_state progress)))
           (table_calls w genome scoring pfm' ncpus zscore gc random_state progress)"
    and "fst (scan_regionfile_to_table h w input_table genome scoring pfmfile ncpus zscore gc
              random_state progress) = Inr df \<Longrightarrow>
         engine_calls (snd (scan_regionfile_to_table h w input_table genome scoring pfmfile
              ncpus zscore gc random_state progress))
           = table_calls w genome scoring pfm' ncpus zscore gc random_state progress"
proof -
  let ?steps = "regionfile_steps w input_table genome scoring pfm' ncpus zscore gc random_state
      progress"
  have e: "engine_calls (events_of ?steps)
             = table_calls w genome scoring pfm' ncpus zscore gc random_state progress"
    by (simp add: engine_calls_regionfile_steps table_calls_def)
  show "prefix
           (engine_calls (snd (scan_regionfile_to_table h w input_table genome scoring pfmfile
              ncpus zscore gc random_state progress)))
           (table_calls w genome scoring pfm' ncpus zscore gc random_state progress)"
    using run_engine_calls_prefix [of "fault w" ?steps] by (simp add: regionfile_run(1) [OF assms] e)
  show "engine_calls (snd (scan_regionfile_to_table h w input_table genome scoring pfmfile
              ncpus zscore gc random_state progress))
           = table_calls w genome scoring pfm' ncpus zscore gc random_state progress"
    if "fst (scan_regionfile_to_table h w input_table genome scoring pfmfile ncpus zscore gc
              random_state progress) = Inr df"
  proof -
    from that regionfile_run(2) [OF assms] have "fst (run (fault w) [] ?steps) = None" by blast
    from run_engine_calls_complete [OF this] show ?thesis
      by (simp add: regionfile_run(1) [OF assms] e)
  qed
qed

lemma regionfile_engine_event:
  assumes "ev \<in> set (snd (scan_regionfile_to_table h w input_table genome scoring pfmfile ncpus
              zscore gc random_state progress))"
    and "is_engine ev"
  shows "\<exists>pfm'. check_motifs h pfmfile = Inr pfm' \<and>
           ev \<in> set (table_calls w genome scoring pfm' ncpus zscore gc random_state progress)"
proof (cases "check_motifs h pfmfile")
  case (Inl e)
  with assms(1) show ?thesis by (simp add: regionfile_rejected)
next
  case (Inr pfm')
  from assms have "ev \<in> set (engine_calls (snd (scan_regionfile_to_table h w input_table genome
      scoring pfmfile ncpus zscore gc random_state progress)))"
    by (rule engine_event_in_calls)
  with regionfile_calls(1) [OF Inr] have
    "ev \<in> set (table_calls w genome scoring pfm' ncpus zscore gc random_state progress)"
    using set_mono_prefix by blast
  with Inr show ?thesis by blast
qed

lemma regionfile_completed:
  assumes "fst (scan_regionfile_to_table h w input_table genome scoring pfmfile ncpus zscore gc
              random_state progress) = Inr df"
  shows "\<exists>pfm' size'. check_motifs h pfmfile = Inr pfm' \<and>
           background_size w random_state (table_index w) = Inr size' \<and>
           engine_calls (snd (scan_regionfile_to_table h w input_table genome scoring pfmfile
              ncpus zscore gc random_state progress))
           = [NewScanner ncpus random_state progress, SetMotifs pfm', SetGenome genome,
              SetBackground None None (of_nat size') gc] @ table_producer scoring zscore gc"
proof (cases "check_motifs h pfmfile")
  case (Inl e)
  with assms show ?thesis by (simp add: regionfile_rejected)
next
  case (Inr pfm')
  let ?steps = "regionfile_steps w input_table genome scoring pfm' ncpus zscore gc random_state
      progress"
  from assms regionfile_run(2) [OF Inr] have n: "fst (run (fault w) [] ?steps) = None" by blast
  show ?thesis
  proof (cases "background_size w random_state (table_index w)")
    case (Inl e)
    then have "Raise e \<in> set ?steps" by (simp add: regionfile_steps_def)
    with run_no_raise [OF n] show ?thesis by blast
  next
    case (Inr size')
    with regionfile_calls(2) [OF \<open>check_motifs h pfmfile = Inr pfm'\<close> assms] Inr
      \<open>check_motifs h pfmfile = Inr pfm'\<close>
    show ?thesis by (simp add: table_calls_def)
  qed
qed

lemma table_calls_threshold:
  "ev \<in> set (table_calls w genome ''count'' pfm' ncpus zscore gc random_state progress) \<Longrightarrow>
   is_set_threshold ev \<Longrightarrow> ev = SetThreshold (Some FPR) None"
  by (auto simp: table_calls_def table_producer_def split: sum.splits)

text \<open>
  Claim C5, as amended. In \<^verbatim>\<open>scan_regionfile_to_table\<close> with \<^verbatim>\<open>scoring="count"\<close> the only
  threshold call is \<^verbatim>\<open>set_threshold(fpr=FPR)\<close>, with the fixed default and no cutoff (the
  function has no cutoff argument). In \<^verbatim>\<open>scan_to_file\<close> with \<^verbatim>\<open>table=True\<close> the only
  threshold call is \<^verbatim>\<open>set_threshold(fpr=fpr, threshold=cutoff)\<close>: the caller's cutoff is
  passed on unchanged, and \<^verbatim>\<open>fpr\<close> is the default only when both arguments are
  \<^verbatim>\<open>None\<close>; when \<^verbatim>\<open>score_table\<close> is set as well, no threshold call is made.
\<close>

theorem count_mode_threshold:
  "(\<forall>ev \<in> set (snd (scan_regionfile_to_table h w input_table genome ''count'' pfmfile ncpus
        zscore gc random_state progress)).
      is_set_threshold ev \<longrightarrow> ev = SetThreshold (Some FPR) None)
   \<and> (fst (scan_regionfile_to_table h w input_table genome ''count'' pfmfile ncpus
        zscore gc random_state progress) = Inr df \<longrightarrow>
      SetThreshold (Some FPR) None
        \<in> set (snd (scan_regionfile_to_table h w input_table genome ''count'' pfmfile ncpus
             zscore gc random_state progress)))
   \<and> (\<forall>ev \<in> set (snd (scan_to_file h w inputfile pfmfile filepath_or_buffer nreport fpr cutoff
        bed scan_rc True False bgfile genome ncpus zscore gcnorm random_state progress)).
      is_set_threshold ev \<longrightarrow>
      ev = SetThreshold (if fpr = None \<and> cutoff = None then Some FPR else fpr) cutoff)
   \<and> (fst (scan_to_file h w inputfile pfmfile filepath_or_buffer nreport fpr cutoff
        bed scan_rc True False bgfile genome ncpus zscore gcnorm random_state progress) = None \<longrightarrow>
      SetThreshold (if fpr = None \<and> cutoff = None then Some FPR else fpr) cutoff
        \<in> set (snd (scan_to_file h w inputfile pfmfile filepath_or_buffer nreport fpr cutoff
             bed scan_rc True False bgfile genome ncpus zscore gcnorm random_state progress)))
   \<and> (\<forall>ev \<in> set (snd (scan_to_file h w inputfile pfmfile filepath_or_buffer nreport fpr cutoff
        bed scan_rc True True bgfile genome ncpus zscore gcnorm random_state progress)).
      \<not> is_set_threshold ev)"
proof -
  let ?t = "scan_regionfile_to_table h w input_table genome ''count'' pfmfile ncpus
        zscore gc random_state progress"
  let ?f = "scan_to_file h w inputfile pfmfile filepath_or_buffer nreport fpr cutoff
        bed scan_rc True False bgfile genome ncpus zscore gcnorm random_state progress"
  let ?g = "scan_to_file h w inputfile pfmfile filepath_or_buffer nreport fpr cutoff
        bed scan_rc True True bgfile genome ncpus zscore gcnorm random_state progress"
  let ?thr = "SetThreshold (if fpr = None \<and> cutoff = None then Some FPR else fpr) cutoff"
  have a: "ev = SetThreshold (Some FPR) None" if "ev \<in> set (snd ?t)" "is_set_threshold ev" for ev
    using regionfile_engine_event [OF that(1) is_set_threshold_engine [OF that(2)]]
      table_calls_threshold that(2) by blast
  have b: "SetThreshold (Some FPR) None \<in> set (snd ?t)" if "fst ?t = Inr df"
  proof -
    from regionfile_completed [OF that] have
      "SetThreshold (Some FPR) None \<in> set (engine_calls (snd ?t))"
      by (auto simp: table_producer_def)
    then show ?thesis by (simp add: engine_calls_def)
  qed
  have c: "ev = ?thr" if "ev \<in> set (snd ?f)" "is_set_threshold ev" for ev
  proof -
    from scan_to_file_engine_event [OF that(1) is_set_threshold_engine [OF that(2)]]
      file_calls_threshold that(2)
    have "ev \<in> set (threshold_calls False fpr cutoff)" by blast
    then show ?thesis by (simp add: threshold_calls_def effective_fpr_def)
  qed
  have d: "?thr \<in> set (snd ?f)" if "fst ?f = None"
  proof -
    from scan_to_file_completed [OF that] have "?thr \<in> set (engine_calls (snd ?f))"
      by (auto simp: file_calls_def threshold_calls_def effective_fpr_def)
    then show ?thesis by (simp add: engine_calls_def)
  qed
  have e: "\<not> is_set_threshold ev" if "ev \<in> set (snd ?g)" for ev
  proof
    assume t: "is_set_threshold ev"
    from scan_to_file_engine_event [OF that is_set_threshold_engine [OF t]]
      file_calls_threshold t
    have "ev \<in> set (threshold_calls True fpr cutoff)" by blast
    then show False by (simp add: threshold_calls_def)
  qed
  from a b c d e show ?thesis by blast
qed

lemma example_count_trace:
  "snd (scan_to_file example_host example_world ''in.fa'' (PStr ''m.pfm'') NoSink 1
        fpr cutoff False True True False None (Some ''hg38'') None True True None None)
   = map (Write Stdout)
       (header_lines example_world ''in.fa'' (PStr ''m.pfm'') fpr cutoff False None
          (Some ''hg38'') True True) @
     [NewScanner None None None,
      SetMotifs (PStr ''m.pfm''),
      SetGenome (Some ''hg38''),
      AsFasta ''in.fa'' (Some ''hg38''),
      MedianLength,
      SetBackground None (Some ''hg38'') 20 True,
      SetThreshold (effective_fpr fpr cutoff) cutoff,
      ReadMotifs (PStr ''m.pfm''),
      Write Stdout (TAB @ ''m1'' @ TAB @ ''m2''),
      Count (Some 1) (Some True),
      Next 0,
      Write Stdout (''seq1'' @ TAB @ ''1'' @ TAB @ ''0''),
      Next 1]"
proof -
  have w: "events_of (map (\<lambda>l. Do (Write Stdout l)) ls) = map (Write Stdout) ls" for ls
    by (induction ls) simp_all
  show ?thesis
    by (simp add: example_count_run scan_to_file_steps_def example_count_lines open_steps_def
        sink_handle_def background_steps_def threshold_steps_def close_steps_def
        should_close_def truthy_str_def example_world_fields w)
qed

theorem count_mode_cutoff_counterexample:
  "filter is_set_threshold
     (snd (scan_to_file example_host example_world ''in.fa'' (PStr ''m.pfm'') NoSink 1
        None (Some 5) False True True False None (Some ''hg38'') None True True None None))
   = [SetThreshold None (Some 5)]"
proof -
  have w: "filter is_set_threshold (map (Write Stdout) ls) = []" for ls
    by (induction ls) simp_all
  show ?thesis
    by (simp add: example_count_trace w effective_fpr_def)
qed

lemma example_background_size:
  "background_size example_world random_state [''chr1:0-20''] = Inr 20"
  by (simp add: background_size_def check_regions_def median_int_def example_world_fields)

lemma example_count_table:
  "scan_regionfile_to_table example_host example_world ''regions.txt'' genome ''count''
       (PStr ''m.pfm'') ncpus zscore gc random_state progress
     = (Inr \<lparr>index = [''chr1:0-20''], columns = [''m1'', ''m2''], cells = [[1, 0]],
              dtype = IntType\<rparr>,
        [ReadTable ''regions.txt'',
         AsFastaRegions [''chr1:0-20''] genome,
         NewScanner ncpus random_state progress,
         SetMotifs (PStr ''m.pfm''),
         SetGenome genome,
         SetBackground None None 20 gc,
         SetThreshold (Some FPR) None,
         Count None None,
         Next 0,
         Next 1,
         DataFrame])"
proof -
  have s: "regionfile_steps example_world ''regions.txt'' genome ''count'' (PStr ''m.pfm'') ncpus
             zscore gc random_state progress
           = [Do (ReadTable ''regions.txt''),
              Do (AsFastaRegions [''chr1:0-20''] genome),
              Do (NewScanner ncpus random_state progress),
              Do (SetMotifs (PStr ''m.pfm'')),
              Do (SetGenome genome),
              Do (SetBackground None None 20 gc),
              Do (SetThreshold (Some FPR) None),
              Do (Count None None),
              Do (Next 0),
              Do (Next 1),
              Do DataFrame]"
    by (simp add: regionfile_steps_def example_background_size read_steps_def endswith_def
        suffix_to_prefix sample_steps_def check_regions_def table_scan_steps_def fetch_steps_def
        dataframe_steps_def shape_ok_def scores_of_def example_world_fields)
  show ?thesis
    unfolding scan_regionfile_to_table_def example_check
    by (simp add: s example_world_fields quiet_def scores_of_def)
qed

theorem count_mode_threshold_witness:
  "SetThreshold (Some FPR) None
     \<in> set (snd (scan_regionfile_to_table example_host example_world ''regions.txt''
          (Some ''hg38'') ''count'' (PStr ''m.pfm'') None True True None None))
   \<and> SetThreshold (Some 5) (Some 3)
     \<in> set (snd (scan_to_file example_host example_world ''in.fa'' (PStr ''m.pfm'') NoSink 1
        (Some 5) (Some 3) False True True False None (Some ''hg38'') None True True None None))
   \<and> filter is_set_threshold
       (snd (scan_to_file example_host example_world ''in.fa'' (PStr ''m.pfm'') NoSink 1
          (Some 5) (Some 3) False True True True None (Some ''hg38'') None True True None None))
     = []"
proof -
  have c: "fst (scan_to_file example_host example_world ''in.fa'' (PStr ''m.pfm'') NoSink 1
        (Some 5) (Some 3) False True True False None (Some ''hg38'') None True True None None)
      = None"
    by (simp add: example_count_run)
  have d: "fst (scan_regionfile_to_table example_host example_world ''regions.txt''
          (Some ''hg38'') ''count'' (PStr ''m.pfm'') None True True None None)
      = Inr \<lparr>index = [''chr1:0-20''], columns = [''m1'', ''m2''], cells = [[1, 0]],
              dtype = IntType\<rparr>"
    by (simp add: example_count_table)
  note t = count_mode_threshold [of example_host example_world "''regions.txt''" "Some ''hg38''"
      "PStr ''m.pfm''" None True True None None
      "\<lparr>index = [''chr1:0-20''], columns = [''m1'', ''m2''], cells = [[1, 0]], dtype = IntType\<rparr>"
      "''in.fa''" NoSink 1 "Some 5" "Some 3" False True None True]
  from t c d show ?thesis by (simp add: filter_empty_conv)
qed

section \<open>The order of the engine calls\<close>

text \<open>
  The order the spec gives: the engine is constructed, then configured with the motifs,
  the genome, the background and the threshold, and only then asked for results. The
  second ranking is the order of \<^verbatim>\<open>scan_to_best_match\<close>, which sets the genome first.
  A trace is in order when the ranks of its calls increase strictly, so that no kind of
  call occurs twice.
\<close>

fun call_rank :: "event \<Rightarrow> nat option" where
  "call_rank (NewScanner n r p) = Some 0"
| "call_rank (SetMotifs m) = Some 1"
| "call_rank (SetGenome g) = Some 2"
| "call_rank (SetBackground f g s c) = Some 3"
| "call_rank (SetThreshold f t) = Some 4"
| "call_rank (Count n r) = Some 5"
| "call_rank (BestScore r z g) = Some 5"
| "call_rank (BestMatch z g) = Some 5"
| "call_rank (Scan n r z g) = Some 5"
| "call_rank ev = None"

fun best_match_rank :: "event \<Rightarrow> nat option" where
  "best_match_rank (NewScanner n r p) = Some 0"
| "best_match_rank (SetGenome g) = Some 1"
| "best_match_rank (SetMotifs m) = Some 2"
| "best_match_rank (SetBackground f g s c) = Some 3"
| "best_match_rank (SetThreshold f t) = Some 4"
| "best_match_rank (Count n r) = Some 5"
| "best_match_rank (BestScore r z g) = Some 5"
| "best_match_rank (BestMatch z g) = Some 5"
| "best_match_rank (Scan n r z g) = Some 5"
| "best_match_rank ev = None"

fun ranks :: "(event \<Rightarrow> nat option) \<Rightarrow> event list \<Rightarrow> nat list" where
  "ranks r [] = []"
| "ranks r (ev # tr) = (case r ev of None \<Rightarrow> ranks r tr | Some k \<Rightarrow> k # ranks r tr)"

definition in_order :: "(event \<Rightarrow> nat option) \<Rightarrow> event list \<Rightarrow> bool" where
  "in_order r tr = sorted_wrt (<) (ranks r tr)"

fun is_new_scanner :: "event \<Rightarrow> bool" where
  "is_new_scanner (NewScanner n r p) = True"
| "is_new_scanner ev = False"

lemma ranks_append [simp]: "ranks r (xs @ ys) = ranks r xs @ ranks r ys"
  by (induction xs) (simp_all split: option.splits)

lemma ranks_prefix: "prefix xs ys \<Longrightarrow> prefix (ranks r xs) (ranks r ys)"
  by (auto simp: prefix_def)

lemma ranks_engine_calls:
  "(\<And>ev. r ev \<noteq> None \<Longrightarrow> is_engine ev) \<Longrightarrow> ranks r (engine_calls tr) = ranks r tr"
proof (induction tr)
  case Nil
  then show ?case by simp
next
  case (Cons ev tr)
  then show ?case by (cases "r ev") auto
qed

lemma call_rank_engine: "call_rank ev \<noteq> None \<Longrightarrow> is_engine ev"
  by (cases ev) simp_all

lemma best_match_rank_engine: "best_match_rank ev \<noteq> None \<Longrightarrow> is_engine ev"
  by (cases ev) simp_all

lemma sorted_wrt_prefix: "prefix xs ys \<Longrightarrow> sorted_wrt P ys \<Longrightarrow> sorted_wrt P xs"
  by (auto simp: prefix_def sorted_wrt_append)

lemma in_order_prefix:
  assumes "\<And>ev. r ev \<noteq> None \<Longrightarrow> is_engine ev"
    and "prefix (engine_calls tr) calls" and "in_order r calls"
  shows "in_order r tr"
proof -
  from assms(2) have "prefix (ranks r (engine_calls tr)) (ranks r calls)" by (rule ranks_prefix)
  then have "prefix (ranks r tr) (ranks r calls)" by (simp add: ranks_engine_calls assms(1))
  with assms(3) show ?thesis unfolding in_order_def by (metis sorted_wrt_prefix)
qed

lemma in_order_file_calls:
  "in_order call_rank (file_calls w pfm' nreport fpr cutoff scan_rc table score_table bgfile
     genome ncpus zscore gcnorm random_state progress)"
  by (simp add: in_order_def file_calls_def background_calls_def threshold_calls_def
      producer_def)

lemma in_order_table_calls:
  "in_order call_rank (table_calls w genome scoring pfm' ncpus zscore gc random_state progress)"
  by (simp add: in_order_def table_calls_def table_producer_def split: sum.splits)

lemma is_new_scanner_engine: "is_new_scanner ev \<Longrightarrow> is_engine ev"
  by (cases ev) simp_all

lemma filter_engine_calls:
  "(\<And>ev. P ev \<Longrightarrow> is_engine ev) \<Longrightarrow> filter P (engine_calls tr) = filter P tr"
  unfolding engine_calls_def by (induction tr) auto

lemma new_scanner_file_calls:
  "filter is_new_scanner (file_calls w pfm' nreport fpr cutoff scan_rc table score_table bgfile
     genome ncpus zscore gcnorm random_state progress) = [NewScanner ncpus random_state progress]"
  by (simp add: file_calls_def background_calls_def threshold_calls_def producer_def)

lemma new_scanner_table_producer [simp]:
  "filter is_new_scanner (table_producer scoring zscore gc) = []"
  by (simp add: table_producer_def)

definition best_match_calls ::
  "pfm \<Rightarrow> nat option \<Rightarrow> string option \<Rightarrow> bool \<Rightarrow> bool \<Rightarrow> bool \<Rightarrow> nat option \<Rightarrow> bool option \<Rightarrow>
   event list" where
  "best_match_calls pfmfile ncpus genome score zscore gc random_state progress =
     [NewScanner ncpus random_state progress, SetGenome genome, SetMotifs pfmfile,
      SetThreshold None (Some 0),
      (if score then BestScore None zscore gc else BestMatch zscore gc)]"

lemma best_match_rejected:
  "check_motifs h pfmfile = Inl e \<Longrightarrow>
   scan_to_best_match h w fname pfmfile ncpus genome score zscore gc random_state progress
     = (Some e, [])"
  by (simp add: scan_to_best_match_def)

lemma best_match_calls_prefix:
  assumes "check_motifs h pfmfile = Inr pfm'"
  shows "prefix
           (engine_calls (snd (scan_to_best_match h w fname pfmfile ncpus genome score zscore gc
              random_state progress)))
           (best_match_calls pfm' ncpus genome score zscore gc random_state progress)"
    and "fst (scan_to_best_match h w fname pfmfile ncpus genome score zscore gc random_state
              progress) = None \<Longrightarrow>
         engine_calls (snd (scan_to_best_match h w fname pfmfile ncpus genome score zscore gc
              random_state progress))
           = best_match_calls pfm' ncpus genome score zscore gc random_state progress"
  using assms
    run_engine_calls_prefix [of "fault w" "best_match_steps w pfm' ncpus genome score zscore gc
      random_state progress"]
    run_engine_calls_complete [of "fault w" "best_match_steps w pfm' ncpus genome score zscore gc
      random_state progress"]
  by (simp_all add: scan_to_best_match_def engine_calls_best_match_steps best_match_calls_def)

lemma in_order_best_match_calls:
  "in_order best_match_rank
     (best_match_calls pfm' ncpus genome score zscore gc random_state progress)"
  by (simp add: in_order_def best_match_calls_def)

lemma in_order_scan_to_file:
  "in_order call_rank (snd (scan_to_file h w inputfile pfmfile filepath_or_buffer nreport fpr
     cutoff bed scan_rc table score_table bgfile genome ncpus zscore gcnorm random_state
     progress))"
proof (cases "check_motifs h pfmfile")
  case (Inl e)
  then show ?thesis by (simp add: scan_to_file_rejected in_order_def)
next
  case (Inr pfm')
  from call_rank_engine scan_to_file_calls(1) [OF Inr] in_order_file_calls
  show ?thesis by (rule in_order_prefix)
qed

lemma in_order_regionfile:
  "in_order call_rank (snd (scan_regionfile_to_table h w input_table genome scoring pfmfile
     ncpus zscore gc random_state progress))"
proof (cases "check_motifs h pfmfile")
  case (Inl e)
  then show ?thesis by (simp add: regionfile_rejected in_order_def)
next
  case (Inr pfm')
  from call_rank_engine regionfile_calls(1) [OF Inr] in_order_table_calls
  show ?thesis by (rule in_order_prefix)
qed

lemma in_order_best_match:
  "in_order best_match_rank (snd (scan_to_best_match h w fname pfmfile ncpus genome score
     zscore gc random_state progress))"
proof (cases "check_motifs h pfmfile")
  case (Inl e)
  then show ?thesis by (simp add: best_match_rejected in_order_def)
next
  case (Inr pfm')
  from best_match_rank_engine best_match_calls_prefix(1) [OF Inr] in_order_best_match_calls
  show ?thesis by (rule in_order_prefix)
qed

lemma one_scanner_scan_to_file:
  assumes "fst (scan_to_file h w inputfile pfmfile filepath_or_buffer nreport fpr
     cutoff bed scan_rc table score_table bgfile genome ncpus zscore gcnorm random_state
     progress) = None"
  shows "filter is_new_scanner (snd (scan_to_file h w inputfile pfmfile filepath_or_buffer
     nreport fpr cutoff bed scan_rc table score_table bgfile genome ncpus zscore gcnorm
     random_state progress)) = [NewScanner ncpus random_state progress]"
proof -
  from scan_to_file_completed [OF assms] obtain pfm' where
    "engine_calls (snd (scan_to_file h w inputfile pfmfile filepath_or_buffer
       nreport fpr cutoff bed scan_rc table score_table bgfile genome ncpus zscore gcnorm
       random_state progress))
     = file_calls w pfm' nreport fpr cutoff scan_rc table score_table bgfile genome ncpus
         zscore gcnorm random_state progress"
    by blast
  from arg_cong [OF this, of "filter is_new_scanner"] show ?thesis
    by (simp add: filter_engine_calls is_new_scanner_engine new_scanner_file_calls)
qed

lemma one_scanner_regionfile:
  assumes "fst (scan_regionfile_to_table h w input_table genome scoring pfmfile
     ncpus zscore gc random_state progress) = Inr df"
  shows "filter is_new_scanner (snd (scan_regionfile_to_table h w input_table genome scoring
     pfmfile ncpus zscore gc random_state progress)) = [NewScanner ncpus random_state progress]"
proof -
  from regionfile_completed [OF assms] obtain pfm' size' where
    "engine_calls (snd (scan_regionfile_to_table h w input_table genome scoring
       pfmfile ncpus zscore gc random_state progress))
     = [NewScanner ncpus random_state progress, SetMotifs pfm', SetGenome genome,
        SetBackground None None (of_nat size') gc] @ table_producer scoring zscore gc"
    by blast
  from arg_cong [OF this, of "filter is_new_scanner"] show ?thesis
    by (simp add: filter_engine_calls is_new_scanner_engine)
qed

lemma one_scanner_best_match:
  assumes "fst (scan_to_best_match h w fname pfmfile ncpus genome score
     zscore gc random_state progress) = None"
  shows "filter is_new_scanner (snd (scan_to_best_match h w fname pfmfile ncpus genome score
     zscore gc random_state progress)) = [NewScanner ncpus random_state progress]"
proof (cases "check_motifs h pfmfile")
  case (Inl e)
  with assms show ?thesis by (simp add: best_match_rejected)
next
  case (Inr pfm')
  from arg_cong [OF best_match_calls_prefix(2) [OF Inr assms], of "filter is_new_scanner"]
  show ?thesis
    by (simp add: filter_engine_calls is_new_scanner_engine best_match_calls_def)
qed

text \<open>
  A result-producing call is the one call of the engine that scans. The plan of a function
  ends with it, so a run that reaches it has made every call of the plan before it.
\<close>

fun is_producer :: "event \<Rightarrow> bool" where
  "is_producer (Count n r) = True"
| "is_producer (BestScore r z g) = True"
| "is_producer (BestMatch z g) = True"
| "is_producer (Scan n r z g) = True"
| "is_producer ev = False"

lemma is_producer_engine: "is_producer ev \<Longrightarrow> is_engine ev"
  by (cases ev) simp_all

lemma prefix_snoc_producer:
  assumes "prefix xs (ys @ [p])" and "\<exists>ev \<in> set xs. is_producer ev"
    and "\<forall>ev \<in> set ys. \<not> is_producer ev"
  shows "xs = ys @ [p]"
proof -
  from assms(1) have "xs = ys @ [p] \<or> prefix xs ys" by simp
  moreover have "\<not> prefix xs ys"
  proof
    assume "prefix xs ys"
    then have "set xs \<subseteq> set ys" by (rule set_mono_prefix)
    with assms(2) assms(3) show False by blast
  qed
  ultimately show ?thesis by blast
qed

lemma producer_reached:
  assumes "prefix (engine_calls tr) (ys @ [p])" and "\<exists>ev \<in> set tr. is_producer ev"
    and "\<forall>ev \<in> set ys. \<not> is_producer ev"
  shows "engine_calls tr = ys @ [p]"
proof -
  from assms(2) have "\<exists>ev \<in> set (engine_calls tr). is_producer ev"
    using engine_event_in_calls is_producer_engine by blast
  with assms(1) assms(3) show ?thesis by (metis prefix_snoc_producer)
qed

lemma file_calls_snoc:
  "file_calls w pfm' nreport fpr cutoff scan_rc table score_table bgfile genome ncpus zscore
     gcnorm random_state progress
   = ([NewScanner ncpus random_state progress, SetMotifs pfm', SetGenome genome] @
      background_calls w genome bgfile gcnorm @ threshold_calls score_table fpr cutoff) @
     [producer nreport scan_rc table score_table zscore gcnorm]"
  by (simp add: file_calls_def)

lemma file_configuration_no_producer:
  "\<forall>ev \<in> set ([NewScanner ncpus random_state progress, SetMotifs pfm', SetGenome genome] @
      background_calls w genome bgfile gcnorm @ threshold_calls score_table fpr cutoff).
     \<not> is_producer ev"
  by (simp add: background_calls_def threshold_calls_def)

lemma scan_to_file_all_calls:
  assumes "check_motifs h pfmfile = Inr pfm'"
    and "fst (scan_to_file h w inputfile pfmfile filepath_or_buffer nreport fpr
              cutoff bed scan_rc table score_table bgfile genome ncpus zscore gcnorm
              random_state progress) = None
         \<or> (\<exists>ev \<in> set (snd (scan_to_file h w inputfile pfmfile filepath_or_buffer nreport fpr
              cutoff bed scan_rc table score_table bgfile genome ncpus zscore gcnorm
              random_state progress)). is_producer ev)"
  shows "engine_calls (snd (scan_to_file h w inputfile pfmfile filepath_or_buffer nreport fpr
              cutoff bed scan_rc table score_table bgfile genome ncpus zscore gcnorm
              random_state progress))
         = file_calls w pfm' nreport fpr cutoff scan_rc table score_table bgfile genome ncpus
              zscore gcnorm random_state progress"
  using assms(2)
proof
  assume "fst (scan_to_file h w inputfile pfmfile filepath_or_buffer nreport fpr
              cutoff bed scan_rc table score_table bgfile genome ncpus zscore gcnorm
              random_state progress) = None"
  with scan_to_file_calls(2) [OF assms(1)] show ?thesis by blast
next
  assume r: "\<exists>ev \<in> set (snd (scan_to_file h w inputfile pfmfile filepath_or_buffer nreport fpr
              cutoff bed scan_rc table score_table bgfile genome ncpus zscore gcnorm
              random_state progress)). is_producer ev"
  from scan_to_file_calls(1) [OF assms(1)]
  have "prefix (engine_calls (snd (scan_to_file h w inputfile pfmfile filepath_or_buffer nreport
              fpr cutoff bed scan_rc table score_table bgfile genome ncpus zscore gcnorm
              random_state progress)))
          (([NewScanner ncpus random_state progress, SetMotifs pfm', SetGenome genome] @
            background_calls w genome bgfile gcnorm @ threshold_calls score_table fpr cutoff) @
           [producer nreport scan_rc table score_table zscore gcnorm])"
    by (simp only: file_calls_snoc)
  from producer_reached [OF this r file_configuration_no_producer]
  show ?thesis by (simp only: file_calls_snoc)
qed

lemma table_calls_cases:
  "table_calls w genome scoring pfm' ncpus zscore gc random_state progress = []
   \<or> (\<exists>ys p. table_calls w genome scoring pfm' ncpus zscore gc random_state progress = ys @ [p]
        \<and> (\<forall>ev \<in> set ys. \<not> is_producer ev))"
proof (cases "background_size w random_state (table_index w)")
  case (Inl e)
  then show ?thesis by (simp add: table_calls_def)
next
  case (Inr size')
  show ?thesis
  proof (cases "scoring = ''count''")
    case True
    with Inr have "table_calls w genome scoring pfm' ncpus zscore gc random_state progress
        = [NewScanner ncpus random_state progress, SetMotifs pfm', SetGenome genome,
           SetBackground None None (of_nat size') gc, SetThreshold (Some FPR) None]
          @ [Count None None]"
      by (simp add: table_calls_def table_producer_def)
    moreover have "\<forall>ev \<in> set [NewScanner ncpus random_state progress, SetMotifs pfm',
        SetGenome genome, SetBackground None None (of_nat size') gc, SetThreshold (Some FPR) None].
        \<not> is_producer ev"
      by simp
    ultimately show ?thesis by blast
  next
    case False
    with Inr have "table_calls w genome scoring pfm' ncpus zscore gc random_state progress
        = [NewScanner ncpus random_state progress, SetMotifs pfm', SetGenome genome,
           SetBackground None None (of_nat size') gc] @ [BestScore None zscore gc]"
      by (simp add: table_calls_def table_producer_def)
    moreover have "\<forall>ev \<in> set [NewScanner ncpus random_state progress, SetMotifs pfm',
        SetGenome genome, SetBackground None None (of_nat size') gc]. \<not> is_producer ev"
      by simp
    ultimately show ?thesis by blast
  qed
qed

lemma regionfile_all_calls:
  assumes "check_motifs h pfmfile = Inr pfm'"
    and "(\<exists>df. fst (scan_regionfile_to_table h w input_table genome scoring pfmfile ncpus zscore
              gc random_state progress) = Inr df)
         \<or> (\<exists>ev \<in> set (snd (scan_regionfile_to_table h w input_table genome scoring pfmfile
              ncpus zscore gc random_state progress)). is_producer ev)"
  shows "engine_calls (snd (scan_regionfile_to_table h w input_table genome scoring pfmfile
              ncpus zscore gc random_state progress))
         = table_calls w genome scoring pfm' ncpus zscore gc random_state progress"
  using assms(2)
proof
  assume "\<exists>df. fst (scan_regionfile_to_table h w input_table genome scoring pfmfile ncpus zscore
              gc random_state progress) = Inr df"
  with regionfile_calls(2) [OF assms(1)] show ?thesis by blast
next
  assume r: "\<exists>ev \<in> set (snd (scan_regionfile_to_table h w input_table genome scoring pfmfile
              ncpus zscore gc random_state progress)). is_producer ev"
  note p = regionfile_calls(1) [OF assms(1), of w input_table genome scoring ncpus zscore gc
      random_state progress]
  from table_calls_cases [of w genome scoring pfm' ncpus zscore gc random_state progress]
  show ?thesis
  proof
    assume e: "table_calls w genome scoring pfm' ncpus zscore gc random_state progress = []"
    with p have "engine_calls (snd (scan_regionfile_to_table h w input_table genome scoring
        pfmfile ncpus zscore gc random_state progress)) = []"
      by simp
    with e show ?thesis by simp
  next
    assume "\<exists>ys p. table_calls w genome scoring pfm' ncpus zscore gc random_state progress
        = ys @ [p] \<and> (\<forall>ev \<in> set ys. \<not> is_producer ev)"
    then obtain ys q where
      e: "table_calls w genome scoring pfm' ncpus zscore gc random_state progress = ys @ [q]"
      and n: "\<forall>ev \<in> set ys. \<not> is_producer ev"
      by blast
    from p e have "prefix (engine_calls (snd (scan_regionfile_to_table h w input_table genome
        scoring pfmfile ncpus zscore gc random_state progress))) (ys @ [q])"
      by simp
    from producer_reached [OF this r n] e show ?thesis by simp
  qed
qed

lemma best_match_all_calls:
  assumes "check_motifs h pfmfile = Inr pfm'"
    and "fst (scan_to_best_match h w fname pfmfile ncpus genome score zscore gc random_state
              progress) = None
         \<or> (\<exists>ev \<in> set (snd (scan_to_best_match h w fname pfmfile ncpus genome score zscore gc
              random_state progress)). is_producer ev)"
  shows "engine_calls (snd (scan_to_best_match h w fname pfmfile ncpus genome score zscore gc
              random_state progress))
         = best_match_calls pfm' ncpus genome score zscore gc random_state progress"
  using assms(2)
proof
  assume "fst (scan_to_best_match h w fname pfmfile ncpus genome score zscore gc random_state
              progress) = None"
  with best_match_calls_prefix(2) [OF assms(1)] show ?thesis by blast
next
  assume r: "\<exists>ev \<in> set (snd (scan_to_best_match h w fname pfmfile ncpus genome score zscore gc
              random_state progress)). is_producer ev"
  have s: "best_match_calls pfm' ncpus genome score zscore gc random_state progress
      = [NewScanner ncpus random_state progress, SetGenome genome, SetMotifs pfm',
         SetThreshold None (Some 0)] @
        [if score then BestScore None zscore gc else BestMatch zscore gc]"
    by (simp add: best_match_calls_def)
  have n: "\<forall>ev \<in> set [NewScanner ncpus random_state progress, SetGenome genome, SetMotifs pfm',
         SetThreshold None (Some 0)]. \<not> is_producer ev"
    by simp
  from best_match_calls_prefix(1) [OF assms(1), of w fname ncpus genome score zscore gc
      random_state progress]
  have "prefix (engine_calls (snd (scan_to_best_match h w fname pfmfile ncpus genome score zscore
      gc random_state progress)))
      ([NewScanner ncpus random_state progress, SetGenome genome, SetMotifs pfm',
         SetThreshold None (Some 0)] @
        [if score then BestScore None zscore gc else BestMatch zscore gc])"
    by (simp only: s)
  from producer_reached [OF this r n] show ?thesis by (simp only: s)
qed

lemma best_match_engine_event:
  assumes "ev \<in> set (snd (scan_to_best_match h w fname pfmfile ncpus genome score zscore gc
              random_state progress))"
    and "is_engine ev"
  shows "\<exists>pfm'. check_motifs h pfmfile = Inr pfm' \<and>
           ev \<in> set (best_match_calls pfm' ncpus genome score zscore gc random_state progress)"
proof (cases "check_motifs h pfmfile")
  case (Inl e)
  with assms(1) show ?thesis by (simp add: best_match_rejected)
next
  case (Inr pfm')
  from assms have "ev \<in> set (engine_calls (snd (scan_to_best_match h w fname pfmfile ncpus
      genome score zscore gc random_state progress)))"
    by (rule engine_event_in_calls)
  with best_match_calls_prefix(1) [OF Inr] have
    "ev \<in> set (best_match_calls pfm' ncpus genome score zscore gc random_state progress)"
    using set_mono_prefix by blast
  with Inr show ?thesis by blast
qed

lemma best_match_no_background:
  assumes "ev \<in> set (snd (scan_to_best_match h w fname pfmfile ncpus genome score zscore gc
              random_state progress))"
  shows "\<not> is_set_background ev"
proof
  assume s: "is_set_background ev"
  then have "is_engine ev" by (rule is_set_background_engine)
  from best_match_engine_event [OF assms this] obtain pfm' where
    "ev \<in> set (best_match_calls pfm' ncpus genome score zscore gc random_state progress)"
    by blast
  with s show False by (auto simp: best_match_calls_def split: if_splits)
qed

lemma best_match_zero_threshold:
  assumes "ev \<in> set (snd (scan_to_best_match h w fname pfmfile ncpus genome score zscore gc
              random_state progress))"
    and "is_set_threshold ev"
  shows "ev = SetThreshold None (Some 0)"
proof -
  from assms(2) have "is_engine ev" by (rule is_set_threshold_engine)
  from best_match_engine_event [OF assms(1) this] obtain pfm' where
    "ev \<in> set (best_match_calls pfm' ncpus genome score zscore gc random_state progress)"
    by blast
  with assms(2) show ?thesis by (auto simp: best_match_calls_def split: if_splits)
qed

text \<open>
  Claim C9, as amended. In every run of an entry operation the calls to the engine are an
  initial part of the plan written out below, and they are the whole plan when the run
  returns or has reached the result-producing call. So at most one engine is constructed,
  and exactly one in a run that returns; it is constructed before any configuration call,
  and every configuration call precedes the result-producing call. In
  \<^verbatim>\<open>scan_regionfile_to_table\<close> and \<^verbatim>\<open>scan_to_file\<close> the configuration order is motifs,
  genome, background, threshold, for the calls the function makes. In
  \<^verbatim>\<open>scan_to_best_match\<close> it is genome, motifs, threshold: no run of it sets a background,
  and the only threshold it sets is \<^verbatim>\<open>threshold=0.0\<close>.
\<close>

theorem engine_call_order:
  "prefix
        (engine_calls
           (snd
              (scan_regionfile_to_table h w input_table genome scoring pfmfile
                 ncpus zscore gc random_state progress)))
        (case check_motifs h pfmfile of
           Inl e \<Rightarrow> []
         | Inr pfm' \<Rightarrow>
             (case background_size w random_state (table_index w) of
                Inl e \<Rightarrow> []
              | Inr size' \<Rightarrow>
                  [NewScanner ncpus random_state progress, SetMotifs pfm', SetGenome genome,
                   SetBackground None None (of_nat size') gc] @
                  (if scoring = ''count'' then [SetThreshold (Some FPR) None, Count None None]
                   else [BestScore None zscore gc])))
   \<and> ((\<exists>df. fst
           (scan_regionfile_to_table h w input_table genome scoring pfmfile
              ncpus zscore gc random_state progress) = Inr df)
        \<or> (\<exists>ev \<in> set
                   (snd
                      (scan_regionfile_to_table h w input_table genome scoring pfmfile
                         ncpus zscore gc random_state progress)). is_producer ev) \<longrightarrow>
         engine_calls
            (snd
               (scan_regionfile_to_table h w input_table genome scoring pfmfile
                  ncpus zscore gc random_state progress))
         = (case check_motifs h pfmfile of
              Inl e \<Rightarrow> []
            | Inr pfm' \<Rightarrow>
                (case background_size w random_state (table_index w) of
                   Inl e \<Rightarrow> []
                 | Inr size' \<Rightarrow>
                     [NewScanner ncpus random_state progress, SetMotifs pfm', SetGenome genome,
                      SetBackground None None (of_nat size') gc] @
                     (if scoring = ''count'' then [SetThreshold (Some FPR) None, Count None None]
                      else [BestScore None zscore gc]))))
   \<and> prefix
        (engine_calls
           (snd
              (scan_to_file h w inputfile pfmfile filepath_or_buffer nreport fpr cutoff
                 bed scan_rc table score_table bgfile genome ncpus zscore gcnorm
                 random_state progress)))
        (case check_motifs h pfmfile of
           Inl e \<Rightarrow> []
         | Inr pfm' \<Rightarrow>
             [NewScanner ncpus random_state progress, SetMotifs pfm', SetGenome genome] @
             (if truthy_str genome then [SetBackground None genome (fa_median_length w) gcnorm]
              else if truthy_str bgfile then [SetBackground bgfile None (fa_median_length w) False]
              else []) @
             (if score_table then [] else [SetThreshold (effective_fpr fpr cutoff) cutoff]) @
             [if table then Count (Some nreport) (Some scan_rc)
              else if score_table then BestScore (Some scan_rc) zscore gcnorm
              else Scan nreport scan_rc zscore gcnorm])
   \<and> (fst
       (scan_to_file h w inputfile pfmfile filepath_or_buffer nreport fpr cutoff
          bed scan_rc table score_table bgfile genome ncpus zscore gcnorm
          random_state progress) = None
        \<or> (\<exists>ev \<in> set
                   (snd
                      (scan_to_file h w inputfile pfmfile filepath_or_buffer nreport fpr cutoff
                         bed scan_rc table score_table bgfile genome ncpus zscore gcnorm
                         random_state progress)). is_producer ev) \<longrightarrow>
         engine_calls
            (snd
               (scan_to_file h w inputfile pfmfile filepath_or_buffer nreport fpr cutoff
                  bed scan_rc table score_table bgfile genome ncpus zscore gcnorm
                  random_state progress))
         = (case check_motifs h pfmfile of
              Inl e \<Rightarrow> []
            | Inr pfm' \<Rightarrow>
                [NewScanner ncpus random_state progress, SetMotifs pfm', SetGenome genome] @
                (if truthy_str genome then [SetBackground None genome (fa_median_length w) gcnorm]
                 else if truthy_str bgfile then [SetBackground bgfile None (fa_median_length w) False]
                 else []) @
                (if score_table then [] else [SetThreshold (effective_fpr fpr cutoff) cutoff]) @
                [if table then Count (Some nreport) (Some scan_rc)
                 else if score_table then BestScore (Some scan_rc) zscore gcnorm
                 else Scan nreport scan_rc zscore gcnorm]))
   \<and> prefix
        (engine_calls
           (snd
              (scan_to_best_match h w fname pfmfile ncpus genome score zscore gc
                 random_state progress)))
        (case check_motifs h pfmfile of
           Inl e \<Rightarrow> []
         | Inr pfm' \<Rightarrow>
             [NewScanner ncpus random_state progress, SetGenome genome, SetMotifs pfm',
              SetThreshold None (Some 0),
              if score then BestScore None zscore gc else BestMatch zscore gc])
   \<and> (fst
       (scan_to_best_match h w fname pfmfile ncpus genome score zscore gc
          random_state progress) = None
        \<or> (\<exists>ev \<in> set
                   (snd
                      (scan_to_best_match h w fname pfmfile ncpus genome score zscore gc
                         random_state progress)). is_producer ev) \<longrightarrow>
         engine_calls
            (snd
               (scan_to_best_match h w fname pfmfile ncpus genome score zscore gc
                  random_state progress))
         = (case check_motifs h pfmfile of
              Inl e \<Rightarrow> []
            | Inr pfm' \<Rightarrow>
                [NewScanner ncpus random_state progress, SetGenome genome, SetMotifs pfm',
                 SetThreshold None (Some 0),
                 if score then BestScore None zscore gc else BestMatch zscore gc]))
   \<and> (\<forall>ev \<in> set
            (snd
               (scan_to_best_match h w fname pfmfile ncpus genome score zscore gc
                  random_state progress)).
         \<not> is_set_background ev)
   \<and> (\<forall>ev \<in> set
            (snd
               (scan_to_best_match h w fname pfmfile ncpus genome score zscore gc
                  random_state progress)).
         is_set_threshold ev \<longrightarrow> ev = SetThreshold None (Some 0))
   \<and> in_order call_rank
        (snd
           (scan_regionfile_to_table h w input_table genome scoring pfmfile
              ncpus zscore gc random_state progress))
   \<and> in_order call_rank
        (snd
           (scan_to_file h w inputfile pfmfile filepath_or_buffer nreport fpr cutoff
              bed scan_rc table score_table bgfile genome ncpus zscore gcnorm
              random_state progress))
   \<and> in_order best_match_rank
        (snd
           (scan_to_best_match h w fname pfmfile ncpus genome score zscore gc
              random_state progress))
   \<and> ((\<exists>df. fst
           (scan_regionfile_to_table h w input_table genome scoring pfmfile
              ncpus zscore gc random_state progress) = Inr df) \<longrightarrow>
         filter is_new_scanner
            (snd
               (scan_regionfile_to_table h w input_table genome scoring pfmfile
                  ncpus zscore gc random_state progress))
         = [NewScanner ncpus random_state progress])
   \<and> (fst
       (scan_to_file h w inputfile pfmfile filepath_or_buffer nreport fpr cutoff
          bed scan_rc table score_table bgfile genome ncpus zscore gcnorm
          random_state progress) = None \<longrightarrow>
         filter is_new_scanner
            (snd
               (scan_to_file h w inputfile pfmfile filepath_or_buffer nreport fpr cutoff
                  bed scan_rc table score_table bgfile genome ncpus zscore gcnorm
                  random_state progress))
         = [NewScanner ncpus random_state progress])
   \<and> (fst
       (scan_to_best_match h w fname pfmfile ncpus genome score zscore gc
          random_state progress) = None \<longrightarrow>
         filter is_new_scanner
            (snd
               (scan_to_best_match h w fname pfmfile ncpus genome score zscore gc
                  random_state progress))
         = [NewScanner ncpus random_state progress])"
  apply (intro conjI)
  subgoal
  proof (cases "check_motifs h pfmfile")
    case (Inl e)
    then show ?thesis by (simp add: regionfile_rejected)
  next
    case (Inr pfm')
    show ?thesis
      using regionfile_calls(1)
        [OF Inr, of w input_table genome scoring ncpus zscore gc random_state progress]
      unfolding Inr sum.case table_calls_def table_producer_def
      by blast
  qed
  subgoal
  proof (cases "check_motifs h pfmfile")
    case (Inl e)
    then show ?thesis by (simp add: regionfile_rejected)
  next
    case (Inr pfm')
    show ?thesis
      using regionfile_all_calls
        [OF Inr, of w input_table genome scoring ncpus zscore gc random_state progress]
      unfolding Inr sum.case table_calls_def table_producer_def
      by blast
  qed
  subgoal
  proof (cases "check_motifs h pfmfile")
    case (Inl e)
    then show ?thesis by (simp add: scan_to_file_rejected)
  next
    case (Inr pfm')
    show ?thesis
      using scan_to_file_calls(1)
        [OF Inr, of w inputfile filepath_or_buffer nreport fpr cutoff bed
          scan_rc table score_table bgfile genome ncpus zscore gcnorm random_state progress]
      unfolding Inr sum.case file_calls_def background_calls_def threshold_calls_def
        producer_def
      by blast
  qed
  subgoal
  proof (cases "check_motifs h pfmfile")
    case (Inl e)
    then show ?thesis by (simp add: scan_to_file_rejected)
  next
    case (Inr pfm')
    show ?thesis
      using scan_to_file_all_calls
        [OF Inr, of w inputfile filepath_or_buffer nreport fpr cutoff bed
          scan_rc table score_table bgfile genome ncpus zscore gcnorm random_state progress]
      unfolding Inr sum.case file_calls_def background_calls_def threshold_calls_def
        producer_def
      by blast
  qed
  subgoal
  proof (cases "check_motifs h pfmfile")
    case (Inl e)
    then show ?thesis by (simp add: best_match_rejected)
  next
    case (Inr pfm')
    show ?thesis
      using best_match_calls_prefix(1)
        [OF Inr, of w fname ncpus genome score zscore gc random_state progress]
      unfolding Inr sum.case best_match_calls_def
      by blast
  qed
  subgoal
  proof (cases "check_motifs h pfmfile")
    case (Inl e)
    then show ?thesis by (simp add: best_match_rejected)
  next
    case (Inr pfm')
    show ?thesis
      using best_match_all_calls
        [OF Inr, of w fname ncpus genome score zscore gc random_state progress]
      unfolding Inr sum.case best_match_calls_def
      by blast
  qed
  subgoal by (blast dest: best_match_no_background)
  subgoal by (blast dest: best_match_zero_threshold)
  subgoal by (rule in_order_regionfile)
  subgoal by (rule in_order_scan_to_file)
  subgoal by (rule in_order_best_match)
  subgoal using one_scanner_regionfile by blast
  subgoal using one_scanner_scan_to_file by blast
  subgoal using one_scanner_best_match by blast
  done

lemma example_best_match_run:
  "scan_to_best_match example_host example_world ''in.fa'' (PStr ''m.pfm'') ncpus genome False
       zscore gc random_state progress
     = (None,
        [NewScanner ncpus random_state progress,
         SetGenome genome,
         SetMotifs (PStr ''m.pfm''),
         SetThreshold None (Some 0),
         ReadMotifs (PStr ''m.pfm''),
         BestMatch zscore gc,
         Next 0,
         Next 1])"
  unfolding scan_to_best_match_def example_check
  by (simp add: best_match_steps_def is_str_def fetch_steps_def example_world_fields quiet_def)

theorem engine_call_order_counterexample:
  "ranks call_rank
     (snd (scan_to_best_match example_host example_world ''in.fa'' (PStr ''m.pfm'') None
        (Some ''hg38'') False False False None None))
     = [0, 2, 1, 4, 5]
   \<and> \<not> in_order call_rank
     (snd (scan_to_best_match example_host example_world ''in.fa'' (PStr ''m.pfm'') None
        (Some ''hg38'') False False False None None))
   \<and> filter is_new_scanner
     (snd (scan_to_best_match example_host example_world ''in.fa'' POther None
        (Some ''hg38'') False False False None None))
     = []"
  by (simp add: example_best_match_run in_order_def best_match_rejected)

theorem engine_call_order_witness:
  "engine_calls
     (snd (scan_regionfile_to_table example_host example_world ''regions.txt'' (Some ''hg38'')
        ''count'' (PStr ''m.pfm'') None True True None None))
     = [NewScanner None None None, SetMotifs (PStr ''m.pfm''), SetGenome (Some ''hg38''),
        SetBackground None None 20 True, SetThreshold (Some FPR) None, Count None None]
   \<and> engine_calls
     (snd (scan_to_file example_host example_world ''in.fa'' (PStr ''m.pfm'') NoSink 1
        None None False True True False None (Some ''hg38'') None True True None None))
     = [NewScanner None None None, SetMotifs (PStr ''m.pfm''), SetGenome (Some ''hg38''),
        SetBackground None (Some ''hg38'') 20 True, SetThreshold (Some FPR) None,
        Count (Some 1) (Some True)]
   \<and> engine_calls
     (snd (scan_to_best_match example_host example_world ''in.fa'' (PStr ''m.pfm'') None
        (Some ''hg38'') False True True None None))
     = [NewScanner None None None, SetGenome (Some ''hg38''), SetMotifs (PStr ''m.pfm''),
        SetThreshold None (Some 0), BestMatch True True]
   \<and> filter is_set_background
     (snd (scan_to_best_match example_host example_world ''in.fa'' (PStr ''m.pfm'') None
        (Some ''hg38'') False True True None None))
     = []
   \<and> filter is_new_scanner
     (snd (scan_regionfile_to_table example_host example_world ''regions.txt'' (Some ''hg38'')
        ''count'' (PStr ''m.pfm'') None True True None None))
     = [NewScanner None None None]
   \<and> filter is_new_scanner
     (snd (scan_to_file example_host example_world ''in.fa'' (PStr ''m.pfm'') NoSink 1
        None None False True True False None (Some ''hg38'') None True True None None))
     = [NewScanner None None None]
   \<and> filter is_new_scanner
     (snd (scan_to_best_match example_host example_world ''in.fa'' (PStr ''m.pfm'') None
        (Some ''hg38'') False True True None None))
     = [NewScanner None None None]"
proof -
  have a: "fst (scan_regionfile_to_table example_host example_world ''regions.txt''
        (Some ''hg38'') ''count'' (PStr ''m.pfm'') None True True None None)
      = Inr \<lparr>index = [''chr1:0-20''], columns = [''m1'', ''m2''], cells = [[1, 0]],
              dtype = IntType\<rparr>"
    by (simp add: example_count_table)
  have b: "fst (scan_to_file example_host example_world ''in.fa'' (PStr ''m.pfm'') NoSink 1
        None None False True True False None (Some ''hg38'') None True True None None) = None"
    by (simp add: example_count_run)
  have c: "fst (scan_to_best_match example_host example_world ''in.fa'' (PStr ''m.pfm'') None
        (Some ''hg38'') False True True None None) = None"
    by (simp add: example_best_match_run)
  have s: "background_size example_world None (table_index example_world) = Inr 20"
    by (simp add: example_world_fields example_background_size)
  have g: "truthy_str (Some ''hg38'')" "effective_fpr None None = Some FPR"
    "fa_median_length example_world = 20"
    by (simp_all add: truthy_str_def effective_fpr_def example_world_fields)
  note t = engine_call_order [where h = example_host and w = example_world
      and input_table = "''regions.txt''" and genome = "Some ''hg38''" and scoring = "''count''"
      and pfmfile = "PStr ''m.pfm''" and ncpus = None and zscore = True and gc = True
      and random_state = None and progress = None and inputfile = "''in.fa''"
      and filepath_or_buffer = NoSink and nreport = 1 and fpr = None and cutoff = None
      and bed = False and scan_rc = True and table = True and score_table = False
      and bgfile = None and gcnorm = True and fname = "''in.fa''" and score = False]
  from t [unfolded example_check sum.case s g] a b c show ?thesis
    by (simp add: g filter_empty_conv)
qed

section \<open>Closing the sink\<close>

fun is_close :: "event \<Rightarrow> bool" where
  "is_close (Close fo) = True"
| "is_close ev = False"

text \<open>The calls a list of steps makes outside \<^verbatim>\<open>try\<close>.\<close>

fun unguarded :: "step \<Rightarrow> event list" where
  "unguarded (Do ev) = [ev]"
| "unguarded s = []"

lemma table_rows_calls: "Call ev \<in> set (table_rows cell ids i rows) \<Longrightarrow> \<exists>j. ev = Next j"
  by (induction rows arbitrary: i) (auto split: if_splits)

lemma result_lines_calls: "Call ev \<notin> set (result_lines w seq seq_id bed motifs result)"
  using result_lines_no_call [of w seq seq_id bed motifs result] by fastforce

lemma normal_rows_calls: "Call ev \<in> set (normal_rows w motifs bed i results) \<Longrightarrow> \<exists>j. ev = Next j"
  by (induction results arbitrary: i) (auto simp: result_lines_calls split: if_splits)

lemma scan_lines_calls:
  "Call ev \<in> set (scan_lines w nreport bed scan_rc table score_table zscore gcnorm) \<Longrightarrow>
   \<not> is_close ev"
  by (auto simp: scan_lines_def scan_table_def scan_score_table_def scan_normal_def
      dest: table_rows_calls normal_rows_calls split: if_splits)

lemma print_item_events:
  "ev \<in> set (step_events (print_item fo it)) \<Longrightarrow> (\<exists>l. ev = Write fo l) \<or> it = Call ev"
  by (cases it) simp_all

lemma printed_not_close:
  assumes "ev \<in> set (events_of (map (print_item fo)
             (scan_lines w nreport bed scan_rc table score_table zscore gcnorm)))"
  shows "\<not> is_close ev"
proof -
  from assms obtain it where
    i: "it \<in> set (scan_lines w nreport bed scan_rc table score_table zscore gcnorm)"
    and e: "ev \<in> set (step_events (print_item fo it))"
    by (auto simp: events_of_def)
  from print_item_events [OF e] show ?thesis
  proof
    assume "\<exists>l. ev = Write fo l"
    then show ?thesis by auto
  next
    assume "it = Call ev"
    with i scan_lines_calls show ?thesis by blast
  qed
qed

definition before_close ::
  "world \<Rightarrow> string \<Rightarrow> pfm \<Rightarrow> sink \<Rightarrow> int \<Rightarrow> rat option \<Rightarrow> rat option \<Rightarrow> bool \<Rightarrow> bool \<Rightarrow> bool \<Rightarrow>
   bool \<Rightarrow> string option \<Rightarrow> string option \<Rightarrow> nat option \<Rightarrow> bool \<Rightarrow> bool \<Rightarrow> nat option \<Rightarrow>
   bool option \<Rightarrow> step list" where
  "before_close w inputfile pfmfile filepath_or_buffer nreport fpr cutoff bed scan_rc
       table score_table bgfile genome ncpus zscore gcnorm random_state progress =
     open_steps w filepath_or_buffer @
     map (\<lambda>l. Do (Write (sink_handle w filepath_or_buffer) l))
       (header_lines w inputfile pfmfile fpr cutoff score_table bgfile genome zscore gcnorm) @
     [Do (NewScanner ncpus random_state progress),
      Do (SetMotifs pfmfile),
      Do (SetGenome genome),
      Do (AsFasta inputfile genome)] @
     background_steps w genome bgfile gcnorm @
     threshold_steps score_table (effective_fpr fpr cutoff) cutoff @
     [Do (ReadMotifs pfmfile)] @
     map (print_item (sink_handle w filepath_or_buffer))
       (scan_lines w nreport bed scan_rc table score_table zscore gcnorm)"

lemma scan_to_file_steps_split:
  "scan_to_file_steps w inputfile pfmfile filepath_or_buffer nreport fpr cutoff bed scan_rc
       table score_table bgfile genome ncpus zscore gcnorm random_state progress
   = before_close w inputfile pfmfile filepath_or_buffer nreport fpr cutoff bed scan_rc
       table score_table bgfile genome ncpus zscore gcnorm random_state progress @
     close_steps w filepath_or_buffer"
  by (simp add: scan_to_file_steps_def before_close_def)

lemma writes_not_close:
  "ev \<in> set (events_of (map (\<lambda>l. Do (Write fo l)) ls)) \<Longrightarrow> \<not> is_close ev"
  by (induction ls) auto

lemma before_close_not_close:
  assumes "ev \<in> set (events_of (before_close w inputfile pfmfile filepath_or_buffer nreport fpr
      cutoff bed scan_rc table score_table bgfile genome ncpus zscore gcnorm random_state
      progress))"
  shows "\<not> is_close ev"
proof -
  have o: "ev \<in> set (events_of (open_steps w filepath_or_buffer)) \<Longrightarrow> \<not> is_close ev"
    by (cases filepath_or_buffer) (auto simp: open_steps_def)
  have b: "ev \<in> set (events_of (background_steps w genome bgfile gcnorm)) \<Longrightarrow> \<not> is_close ev"
    by (auto simp: background_steps_def split: if_splits)
  have t: "ev \<in> set (events_of (threshold_steps score_table (effective_fpr fpr cutoff) cutoff))
      \<Longrightarrow> \<not> is_close ev"
    by (auto simp: threshold_steps_def split: if_splits)
  from assms o b t writes_not_close printed_not_close show ?thesis
    unfolding before_close_def by (fastforce simp: events_of_def)
qed

lemma run_before_close_no_close:
  "filter is_close (snd (run flt [] (before_close w inputfile pfmfile filepath_or_buffer nreport
      fpr cutoff bed scan_rc table score_table bgfile genome ncpus zscore gcnorm random_state
      progress))) = []"
  using run_events_subset [of flt "[]"] before_close_not_close
  by (fastforce simp: filter_empty_conv)

lemma run_then_try:
  "run flt tr (steps @ [Try ev]) =
     (case run flt tr steps of
        (None, tr') \<Rightarrow> (None, tr' @ [ev])
      | (Some e, tr') \<Rightarrow> (Some e, tr'))"
  by (simp add: run_append split: prod.splits option.splits)

lemma scan_to_file_path:
  assumes "check_motifs h pfmfile = Inr pfm'"
  shows "scan_to_file h w inputfile pfmfile (Path p) nreport fpr cutoff bed scan_rc table
           score_table bgfile genome ncpus zscore gcnorm random_state progress
         = (case run (fault w) [] (before_close w inputfile pfm' (Path p) nreport fpr cutoff bed
                 scan_rc table score_table bgfile genome ncpus zscore gcnorm random_state
                 progress) of
              (None, tr') \<Rightarrow> (None, tr' @ [Close (File (expanduser w p))])
            | (Some e, tr') \<Rightarrow> (Some e, tr'))"
  using assms
  by (simp add: scan_to_file_def scan_to_file_steps_split close_steps_def should_close_def
      sink_handle_def run_then_try)

lemma scan_to_file_inherited:
  assumes "check_motifs h pfmfile = Inr pfm'" and "filepath_or_buffer = NoSink \<or> filepath_or_buffer = Buffer b"
  shows "scan_to_file h w inputfile pfmfile filepath_or_buffer nreport fpr cutoff bed scan_rc
           table score_table bgfile genome ncpus zscore gcnorm random_state progress
         = run (fault w) [] (before_close w inputfile pfm' filepath_or_buffer nreport fpr cutoff
             bed scan_rc table score_table bgfile genome ncpus zscore gcnorm random_state
             progress)"
  using assms
  by (auto simp: scan_to_file_def scan_to_file_steps_split close_steps_def should_close_def)

lemma closes_path:
  "filter is_close (snd (scan_to_file h w inputfile pfmfile (Path p) nreport fpr cutoff bed
       scan_rc table score_table bgfile genome ncpus zscore gcnorm random_state progress))
   = (if fst (scan_to_file h w inputfile pfmfile (Path p) nreport fpr cutoff bed scan_rc table
          score_table bgfile genome ncpus zscore gcnorm random_state progress) = None
      then [Close (File (expanduser w p))] else [])"
proof (cases "check_motifs h pfmfile")
  case (Inl e)
  then show ?thesis by (simp add: scan_to_file_rejected)
next
  case (Inr pfm')
  obtain r tr' where
    e: "run (fault w) [] (before_close w inputfile pfm' (Path p) nreport fpr cutoff bed scan_rc
          table score_table bgfile genome ncpus zscore gcnorm random_state progress) = (r, tr')"
    by (cases "run (fault w) [] (before_close w inputfile pfm' (Path p) nreport fpr cutoff bed
          scan_rc table score_table bgfile genome ncpus zscore gcnorm random_state progress)")
  from run_before_close_no_close [of "fault w" w inputfile pfm' "Path p" nreport fpr cutoff
        bed scan_rc table score_table bgfile genome ncpus zscore gcnorm random_state progress]
  have "filter is_close tr' = []" by (simp add: e)
  then show ?thesis
    by (cases r) (simp_all add: scan_to_file_path [OF Inr] e)
qed

lemma closes_last:
  assumes "fst (scan_to_file h w inputfile pfmfile (Path p) nreport fpr cutoff bed scan_rc table
          score_table bgfile genome ncpus zscore gcnorm random_state progress) = None"
  shows "last (snd (scan_to_file h w inputfile pfmfile (Path p) nreport fpr cutoff bed scan_rc
          table score_table bgfile genome ncpus zscore gcnorm random_state progress))
         = Close (File (expanduser w p))"
proof (cases "check_motifs h pfmfile")
  case (Inl e)
  with assms show ?thesis by (simp add: scan_to_file_rejected)
next
  case (Inr pfm')
  with assms show ?thesis
    by (simp add: scan_to_file_path [OF Inr] split: prod.splits option.splits)
qed

lemma closes_inherited:
  assumes "filepath_or_buffer = NoSink \<or> filepath_or_buffer = Buffer b"
  shows "filter is_close (snd (scan_to_file h w inputfile pfmfile filepath_or_buffer nreport fpr
       cutoff bed scan_rc table score_table bgfile genome ncpus zscore gcnorm random_state
       progress)) = []"
proof (cases "check_motifs h pfmfile")
  case (Inl e)
  then show ?thesis by (simp add: scan_to_file_rejected)
next
  case (Inr pfm')
  show ?thesis
    by (simp add: scan_to_file_inherited [OF Inr assms] run_before_close_no_close)
qed

text \<open>
  A failure of the close changes nothing: an oracle that lets every close raise gives the
  same outcome and the same trace.
\<close>

definition close_fails :: "exn \<Rightarrow> world \<Rightarrow> world" where
  "close_fails e w = w\<lparr>fault := (\<lambda>tr ev. if is_close ev then Some e else fault w tr ev)\<rparr>"

lemma run_fault_cong:
  assumes "\<forall>s \<in> set steps. \<forall>ev \<in> set (unguarded s). \<not> is_close ev"
    and "\<forall>tr ev. \<not> is_close ev \<longrightarrow> f tr ev = g tr ev"
  shows "run f tr steps = run g tr steps"
  using assms(1)
proof (induction steps arbitrary: tr)
  case Nil
  then show ?case by simp
next
  case (Cons s steps)
  then show ?case using assms(2) by (cases s) (auto split: option.splits)
qed

lemma normal_rows_close_fails [simp]:
  "normal_rows (close_fails e w) motifs bed i results = normal_rows w motifs bed i results"
  by (induction results arbitrary: i) (simp_all add: close_fails_def result_lines_def)

lemma close_fails_fields [simp]:
  "expanduser (close_fails e w) = expanduser w" "dirname (close_fails e w) = dirname w"
  "version (close_fails e w) = version w" "str_float (close_fails e w) = str_float w"
  "str_pfm (close_fails e w) = str_pfm w" "fa_ids (close_fails e w) = fa_ids w"
  "fa_median_length (close_fails e w) = fa_median_length w"
  "motifs_read (close_fails e w) = motifs_read w" "counts (close_fails e w) = counts w"
  "best_scores (close_fails e w) = best_scores w" "matches (close_fails e w) = matches w"
  by (simp_all add: close_fails_def)

lemma open_steps_close_fails [simp]: "open_steps (close_fails e w) s = open_steps w s"
  by (cases s) (simp_all add: open_steps_def)

lemma sink_handle_close_fails [simp]: "sink_handle (close_fails e w) s = sink_handle w s"
  by (cases s) (simp_all add: sink_handle_def)

lemma fpr_lines_close_fails [simp]:
  "fpr_lines (close_fails e w) f score_table genome bgfile = fpr_lines w f score_table genome bgfile"
  by (cases f; cases genome; cases bgfile) (simp_all add: fpr_lines_def fpr_line_def)

lemma threshold_lines_close_fails [simp]:
  "threshold_lines (close_fails e w) cutoff = threshold_lines w cutoff"
  by (cases cutoff) (simp_all add: threshold_lines_def threshold_line_def)

lemma scan_to_file_steps_close_fails:
  "scan_to_file_steps (close_fails e w) inputfile pfmfile filepath_or_buffer nreport fpr cutoff
     bed scan_rc table score_table bgfile genome ncpus zscore gcnorm random_state progress
   = scan_to_file_steps w inputfile pfmfile filepath_or_buffer nreport fpr cutoff
     bed scan_rc table score_table bgfile genome ncpus zscore gcnorm random_state progress"
  by (simp add: scan_to_file_steps_def header_lines_def background_steps_def
      scan_lines_def scan_table_def scan_score_table_def scan_normal_def close_steps_def)

lemma unguarded_scan_to_file_steps:
  "\<forall>s \<in> set (scan_to_file_steps w inputfile pfmfile filepath_or_buffer nreport fpr cutoff
     bed scan_rc table score_table bgfile genome ncpus zscore gcnorm random_state progress).
     \<forall>ev \<in> set (unguarded s). \<not> is_close ev"
proof (intro ballI)
  fix s ev
  assume s: "s \<in> set (scan_to_file_steps w inputfile pfmfile filepath_or_buffer nreport fpr
     cutoff bed scan_rc table score_table bgfile genome ncpus zscore gcnorm random_state
     progress)" and ev: "ev \<in> set (unguarded s)"
  from ev have d: "s = Do ev" by (cases s) simp_all
  from s have "s \<in> set (before_close w inputfile pfmfile filepath_or_buffer nreport fpr
     cutoff bed scan_rc table score_table bgfile genome ncpus zscore gcnorm random_state
     progress) \<or> s \<in> set (close_steps w filepath_or_buffer)"
    by (simp add: scan_to_file_steps_split)
  then show "\<not> is_close ev"
  proof
    assume "s \<in> set (before_close w inputfile pfmfile filepath_or_buffer nreport fpr
     cutoff bed scan_rc table score_table bgfile genome ncpus zscore gcnorm random_state
     progress)"
    with d have "ev \<in> set (events_of (before_close w inputfile pfmfile filepath_or_buffer
     nreport fpr cutoff bed scan_rc table score_table bgfile genome ncpus zscore gcnorm
     random_state progress))"
      by (force simp: events_of_def)
    then show ?thesis by (rule before_close_not_close)
  next
    assume "s \<in> set (close_steps w filepath_or_buffer)"
    with d show ?thesis by (simp add: close_steps_def split: if_splits)
  qed
qed

lemma close_failure_swallowed:
  "scan_to_file h (close_fails e w) inputfile pfmfile filepath_or_buffer nreport fpr cutoff bed
     scan_rc table score_table bgfile genome ncpus zscore gcnorm random_state progress
   = scan_to_file h w inputfile pfmfile filepath_or_buffer nreport fpr cutoff bed
     scan_rc table score_table bgfile genome ncpus zscore gcnorm random_state progress"
proof -
  have "run (fault (close_fails e w)) [] steps = run (fault w) [] steps"
    if "\<forall>s \<in> set steps. \<forall>ev \<in> set (unguarded s). \<not> is_close ev" for steps
    using that by (rule run_fault_cong) (simp add: close_fails_def)
  with unguarded_scan_to_file_steps show ?thesis
    by (simp add: scan_to_file_def scan_to_file_steps_close_fails split: sum.splits)
qed

text \<open>
  Claim C7, as amended. In \<^verbatim>\<open>scan_to_file\<close> a sink that the function opened itself from a
  path is closed exactly when the function completes normally, as its last action, and a
  failure of that close is swallowed: it changes neither the outcome nor the calls made.
  When an exception ends the function earlier, the function does not close the sink. A
  stream supplied by the caller, or standard output, is never closed by the function.
\<close>

theorem sink_closing:
  "filter is_close (snd (scan_to_file h w inputfile pfmfile (Path p) nreport fpr cutoff bed
       scan_rc table score_table bgfile genome ncpus zscore gcnorm random_state progress))
     = (if fst (scan_to_file h w inputfile pfmfile (Path p) nreport fpr cutoff bed scan_rc table
            score_table bgfile genome ncpus zscore gcnorm random_state progress) = None
        then [Close (File (expanduser w p))] else [])
   \<and> (fst (scan_to_file h w inputfile pfmfile (Path p) nreport fpr cutoff bed scan_rc table
            score_table bgfile genome ncpus zscore gcnorm random_state progress) = None \<longrightarrow>
        last (snd (scan_to_file h w inputfile pfmfile (Path p) nreport fpr cutoff bed scan_rc
            table score_table bgfile genome ncpus zscore gcnorm random_state progress))
          = Close (File (expanduser w p)))
   \<and> scan_to_file h (close_fails e w) inputfile pfmfile filepath_or_buffer nreport fpr cutoff
        bed scan_rc table score_table bgfile genome ncpus zscore gcnorm random_state progress
     = scan_to_file h w inputfile pfmfile filepath_or_buffer nreport fpr cutoff bed
        scan_rc table score_table bgfile genome ncpus zscore gcnorm random_state progress
   \<and> filter is_close (snd (scan_to_file h w inputfile pfmfile NoSink nreport fpr cutoff bed
       scan_rc table score_table bgfile genome ncpus zscore gcnorm random_state progress)) = []
   \<and> filter is_close (snd (scan_to_file h w inputfile pfmfile (Buffer b) nreport fpr cutoff bed
       scan_rc table score_table bgfile genome ncpus zscore gcnorm random_state progress)) = []"
  using closes_path [of h w inputfile pfmfile p nreport fpr cutoff bed scan_rc table score_table
      bgfile genome ncpus zscore gcnorm random_state progress]
    closes_last [of h w inputfile pfmfile p nreport fpr cutoff bed scan_rc table score_table
      bgfile genome ncpus zscore gcnorm random_state progress]
    close_failure_swallowed [of h e w inputfile pfmfile filepath_or_buffer nreport fpr cutoff bed
      scan_rc table score_table bgfile genome ncpus zscore gcnorm random_state progress]
    closes_inherited [of NoSink b h w inputfile pfmfile nreport fpr cutoff bed scan_rc table
      score_table bgfile genome ncpus zscore gcnorm random_state progress]
    closes_inherited [of "Buffer b" b h w inputfile pfmfile nreport fpr cutoff bed scan_rc table
      score_table bgfile genome ncpus zscore gcnorm random_state progress]
  by simp

text \<open>A world in which \<^verbatim>\<open>set_motifs\<close> raises.\<close>

definition failing_world :: world where
  "failing_world =
     example_world\<lparr>fault := (\<lambda>tr ev. if ev = SetMotifs (PStr ''m.pfm'')
                                      then Some (Raised ''engine failure'') else None)\<rparr>"

theorem sink_closing_counterexample:
  "scan_to_file example_host failing_world ''in.fa'' (PStr ''m.pfm'') (Path ''out/res.txt'') 1
       None None False True True False None (Some ''hg38'') None True True None None
     = (Some (Raised ''engine failure''),
        [Makedirs ''out'',
         Open ''out/res.txt'',
         Write (File ''out/res.txt'') ''# GimmeMotifs version 0.17.0'',
         Write (File ''out/res.txt'') ''# Input: in.fa'',
         Write (File ''out/res.txt'') ''# Motifs: m.pfm'',
         Write (File ''out/res.txt'') ''# FPR: 0.01 (hg38)'',
         Write (File ''out/res.txt'') ''# Scoring: GC frequency normalized z-score'',
         NewScanner None None None,
         SetMotifs (PStr ''m.pfm'')])"
proof -
  have h: "header_lines failing_world ''in.fa'' (PStr ''m.pfm'') None None False None
             (Some ''hg38'') True True
           = [''# GimmeMotifs version 0.17.0'', ''# Input: in.fa'', ''# Motifs: m.pfm'',
              ''# FPR: 0.01 (hg38)'', ''# Scoring: GC frequency normalized z-score'']"
    by (simp add: header_lines_def fpr_lines_def fpr_line_def effective_fpr_def FPR_def
        threshold_lines_def scoring_line_def failing_world_def example_world_def
        example_repr_def)
  have f: "expanduser failing_world = (\<lambda>p. p)" "dirname failing_world = (\<lambda>p. ''out'')"
    "fault failing_world = (\<lambda>tr ev. if ev = SetMotifs (PStr ''m.pfm'')
                                      then Some (Raised ''engine failure'') else None)"
    by (simp_all add: failing_world_def example_world_def)
  show ?thesis
    unfolding scan_to_file_def example_check
    by (simp add: scan_to_file_steps_def h f open_steps_def sink_handle_def)
qed

theorem sink_closing_witness:
  "filter is_close
     (snd (scan_to_file example_host example_world ''in.fa'' (PStr ''m.pfm'')
        (Path ''out/res.txt'') 1 None None False True True False None (Some ''hg38'') None True
        True None None))
     = [Close (File ''out/res.txt'')]
   \<and> last
     (snd (scan_to_file example_host example_world ''in.fa'' (PStr ''m.pfm'')
        (Path ''out/res.txt'') 1 None None False True True False None (Some ''hg38'') None True
        True None None))
     = Close (File ''out/res.txt'')
   \<and> fst (scan_to_file example_host (close_fails (Raised ''close'') example_world) ''in.fa''
        (PStr ''m.pfm'') (Path ''out/res.txt'') 1 None None False True True False None
        (Some ''hg38'') None True True None None)
     = None"
proof -
  have c: "fst (scan_to_file example_host example_world ''in.fa'' (PStr ''m.pfm'')
        (Path ''out/res.txt'') 1 None None False True True False None (Some ''hg38'') None True
        True None None) = None"
    by (simp add: example_count_run)
  note t = sink_closing [of example_host example_world "''in.fa''" "PStr ''m.pfm''"
      "''out/res.txt''" 1 None None False True True False None "Some ''hg38''" None True True
      None None "Raised ''close''" "Path ''out/res.txt''" 0]
  from t c show ?thesis by (simp add: example_world_fields)
qed

section \<open>The table\<close>

lemma regionfile_result:
  assumes "fst (scan_regionfile_to_table h w input_table genome scoring pfmfile ncpus zscore gc
              random_state progress) = Inr df"
  shows "df = \<lparr>index = table_index w, columns = motif_ids w, cells = scores_of w scoring,
               dtype = (if scoring = ''count'' then IntType else Float16)\<rparr>"
    and "shape_ok (scores_of w scoring) (table_index w) (motif_ids w)"
proof -
  from regionfile_completed [OF assms] obtain pfm' size' where
    c: "check_motifs h pfmfile = Inr pfm'"
    and b: "background_size w random_state (table_index w) = Inr size'"
    by blast
  let ?steps = "regionfile_steps w input_table genome scoring pfm' ncpus zscore gc random_state
      progress"
  from assms regionfile_run(2) [OF c] have n: "fst (run (fault w) [] ?steps) = None" by blast
  then obtain tr where r: "run (fault w) [] ?steps = (None, tr)"
    by (cases "run (fault w) [] ?steps") simp
  from assms show "df = \<lparr>index = table_index w, columns = motif_ids w,
      cells = scores_of w scoring, dtype = (if scoring = ''count'' then IntType else Float16)\<rparr>"
    by (simp add: scan_regionfile_to_table_def c r)
  show "shape_ok (scores_of w scoring) (table_index w) (motif_ids w)"
  proof (rule ccontr)
    assume "\<not> shape_ok (scores_of w scoring) (table_index w) (motif_ids w)"
    then have "Raise (ValueError ''Shape of passed values'') \<in> set ?steps"
      by (simp add: regionfile_steps_def b dataframe_steps_def)
    with run_no_raise [OF n] show False by blast
  qed
qed

lemma regionfile_no_raise:
  assumes "background_size w random_state (table_index w) = Inr size'"
    and "shape_ok (scores_of w scoring) (table_index w) (motif_ids w)"
  shows "Raise e \<notin> set (regionfile_steps w input_table genome scoring pfm' ncpus zscore gc
           random_state progress)"
  using assms
  by (auto simp: regionfile_steps_def read_steps_def sample_steps_def table_scan_steps_def
      fetch_steps_def dataframe_steps_def)

lemma regionfile_returns:
  assumes "check_motifs h pfmfile = Inr pfm'"
    and "fault w = quiet"
    and "background_size w random_state (table_index w) = Inr size'"
    and "shape_ok (scores_of w scoring) (table_index w) (motif_ids w)"
  shows "\<exists>df. fst (scan_regionfile_to_table h w input_table genome scoring pfmfile ncpus zscore
           gc random_state progress) = Inr df"
proof -
  have "\<forall>e. Raise e \<notin> set (regionfile_steps w input_table genome scoring pfm' ncpus zscore gc
           random_state progress)"
    using regionfile_no_raise [OF assms(3,4)] by blast
  from run_quiet [OF this, of "[]"] show ?thesis
    by (simp add: scan_regionfile_to_table_def assms(1,2))
qed

text \<open>
  Claim C6. The table returned by \<^verbatim>\<open>scan_regionfile_to_table\<close> has one row per region of
  the input file, in file order, and one column per motif of the engine, in the engine's
  order; its value type is the integer type when \<^verbatim>\<open>scoring="count"\<close> and \<^verbatim>\<open>float16\<close>
  otherwise, in particular when \<^verbatim>\<open>scoring="score"\<close>. The function returns a table when no
  call raises, the regions resolve to at least one length and the engine delivers one row
  per region with one value per motif.
\<close>

theorem table_shape:
  "(fst (scan_regionfile_to_table h w input_table genome scoring pfmfile ncpus zscore gc
          random_state progress) = Inr df \<longrightarrow>
      index df = table_index w
      \<and> columns df = motif_ids w
      \<and> length (cells df) = length (table_index w)
      \<and> (\<forall>row \<in> set (cells df). length row = length (motif_ids w))
      \<and> (scoring = ''count'' \<longrightarrow> dtype df = IntType)
      \<and> (scoring \<noteq> ''count'' \<longrightarrow> dtype df = Float16))
   \<and> (check_motifs h pfmfile = Inr pfm' \<and> fault w = quiet
        \<and> background_size w random_state (table_index w) = Inr size'
        \<and> shape_ok (scores_of w scoring) (table_index w) (motif_ids w) \<longrightarrow>
      (\<exists>t. fst (scan_regionfile_to_table h w input_table genome scoring pfmfile ncpus zscore gc
          random_state progress) = Inr t))"
proof -
  have a: "index df = table_index w
      \<and> columns df = motif_ids w
      \<and> length (cells df) = length (table_index w)
      \<and> (\<forall>row \<in> set (cells df). length row = length (motif_ids w))
      \<and> (scoring = ''count'' \<longrightarrow> dtype df = IntType)
      \<and> (scoring \<noteq> ''count'' \<longrightarrow> dtype df = Float16)"
    if "fst (scan_regionfile_to_table h w input_table genome scoring pfmfile ncpus zscore gc
          random_state progress) = Inr df"
    using regionfile_result [OF that] by (simp add: shape_ok_def)
  from a regionfile_returns show ?thesis by blast
qed

lemma example_score_table:
  "scan_regionfile_to_table example_host example_world ''regions.txt'' genome ''score''
       (PStr ''m.pfm'') ncpus zscore gc random_state progress
     = (Inr \<lparr>index = [''chr1:0-20''], columns = [''m1'', ''m2''], cells = [[3 / 2, 1 / 4]],
              dtype = Float16\<rparr>,
        [ReadTable ''regions.txt'',
         AsFastaRegions [''chr1:0-20''] genome,
         NewScanner ncpus random_state progress,
         SetMotifs (PStr ''m.pfm''),
         SetGenome genome,
         SetBackground None None 20 gc,
         BestScore None zscore gc,
         Next 0,
         Next 1,
         DataFrame])"
proof -
  have s: "regionfile_steps example_world ''regions.txt'' genome ''score'' (PStr ''m.pfm'') ncpus
             zscore gc random_state progress
           = [Do (ReadTable ''regions.txt''),
              Do (AsFastaRegions [''chr1:0-20''] genome),
              Do (NewScanner ncpus random_state progress),
              Do (SetMotifs (PStr ''m.pfm'')),
              Do (SetGenome genome),
              Do (SetBackground None None 20 gc),
              Do (BestScore None zscore gc),
              Do (Next 0),
              Do (Next 1),
              Do DataFrame]"
    by (simp add: regionfile_steps_def example_background_size read_steps_def endswith_def
        suffix_to_prefix sample_steps_def check_regions_def table_scan_steps_def fetch_steps_def
        dataframe_steps_def shape_ok_def scores_of_def example_world_fields)
  show ?thesis
    unfolding scan_regionfile_to_table_def example_check
    by (simp add: s example_world_fields quiet_def scores_of_def)
qed

theorem table_shape_witness:
  "fst (scan_regionfile_to_table example_host example_world ''regions.txt'' (Some ''hg38'')
          ''count'' (PStr ''m.pfm'') None True True None None)
     = Inr \<lparr>index = [''chr1:0-20''], columns = [''m1'', ''m2''], cells = [[1, 0]],
             dtype = IntType\<rparr>
   \<and> fst (scan_regionfile_to_table example_host example_world ''regions.txt'' (Some ''hg38'')
          ''score'' (PStr ''m.pfm'') None True True None None)
     = Inr \<lparr>index = [''chr1:0-20''], columns = [''m1'', ''m2''], cells = [[3 / 2, 1 / 4]],
             dtype = Float16\<rparr>
   \<and> (\<exists>t. fst (scan_regionfile_to_table example_host example_world ''regions.txt''
          (Some ''hg38'') ''score'' (PStr ''m.pfm'') None True True None None) = Inr t
        \<and> index t = table_index example_world \<and> columns t = motif_ids example_world
        \<and> dtype t = Float16)"
proof -
  have a: "fst (scan_regionfile_to_table example_host example_world ''regions.txt''
          (Some ''hg38'') ''count'' (PStr ''m.pfm'') None True True None None)
     = Inr \<lparr>index = [''chr1:0-20''], columns = [''m1'', ''m2''], cells = [[1, 0]],
             dtype = IntType\<rparr>"
    by (simp add: example_count_table)
  have b: "fst (scan_regionfile_to_table example_host example_world ''regions.txt''
          (Some ''hg38'') ''score'' (PStr ''m.pfm'') None True True None None)
     = Inr \<lparr>index = [''chr1:0-20''], columns = [''m1'', ''m2''], cells = [[3 / 2, 1 / 4]],
             dtype = Float16\<rparr>"
    by (simp add: example_score_table)
  have c: "check_motifs example_host (PStr ''m.pfm'') = Inr (PStr ''m.pfm'')
        \<and> fault example_world = quiet
        \<and> background_size example_world None (table_index example_world) = Inr 20
        \<and> shape_ok (scores_of example_world ''score'') (table_index example_world)
            (motif_ids example_world)"
    using example_check
    by (simp add: example_world_fields example_background_size shape_ok_def scores_of_def
        example_host_def check_exists_def)
  note t = table_shape [of example_host example_world "''regions.txt''" "Some ''hg38''"
      "''score''" "PStr ''m.pfm''" None True True None None
      "\<lparr>index = [''chr1:0-20''], columns = [''m1'', ''m2''], cells = [[3 / 2, 1 / 4]],
        dtype = Float16\<rparr>" "PStr ''m.pfm''" 20]
  from t a b c show ?thesis by (simp add: example_world_fields)
qed

section \<open>The background size\<close>

text \<open>
  A sample without replacement holds the entries of \<open>xs\<close> at \<open>k\<close> pairwise distinct
  positions.
\<close>

definition sample_without_replacement :: "'a list \<Rightarrow> nat \<Rightarrow> 'a list \<Rightarrow> bool" where
  "sample_without_replacement xs k ys =
     (\<exists>ps. length ps = k \<and> distinct ps \<and> (\<forall>i \<in> set ps. i < length xs) \<and> ys = map ((!) xs) ps)"




fun is_choice :: "event \<Rightarrow> bool" where
  "is_choice (Choice r xs k b) = True"
| "is_choice ev = False"


lemma length_swap [simp]: "length (swap i j xs) = length xs"
  by (simp add: swap_def)


lemma length_shuffle [simp]: "length (shuffle js i xs) = length xs"
  by (induction js i xs rule: shuffle.induct) simp_all



















lemma sample_distinct:
  assumes "sample_without_replacement xs k ys" and "distinct xs"
  shows "length ys = k" and "distinct ys" and "set ys \<subseteq> set xs"
proof -
  from assms(1) obtain ps where ps: "length ps = k" "distinct ps" "\<forall>i \<in> set ps. i < length xs"
    "ys = map ((!) xs) ps"
    unfolding sample_without_replacement_def by blast
  show "length ys = k" using ps by simp
  have "inj_on ((!) xs) (set ps)"
    using assms(2) ps(3) by (auto simp: inj_on_def nth_eq_iff_index_eq)
  with ps show "distinct ys" by (simp add: distinct_map)
  show "set ys \<subseteq> set xs" using ps by auto
qed





lemma median_int_examples:
  "median_int [30, 10, 20] = Inr 20" "median_int [10, 30, 21, 20] = Inr 20"
  "median_int [] = Inl (ValueError ''cannot convert float NaN to integer'')"
  by (simp_all add: median_int_def)




lemma choice_calls_fetch_steps [simp]: "filter is_choice (events_of (fetch_steps n)) = []"
proof -
  have "filter is_choice (events_of (map (\<lambda>i. Do (Next i)) xs)) = []" for xs :: "nat list"
    by (induction xs) simp_all
  then show ?thesis unfolding fetch_steps_def by blast
qed











text \<open>
  With replacement the same position can be drawn twice, which no sample without
  replacement shows.
\<close>

lemma choice_with_replacement_example:
  "np_choice (\<lambda>st m. (0, st)) st [''a'', ''b''] 2 True = [''a'', ''a'']"
  "\<not> sample_without_replacement [''a'', ''b''] 2 [''a'', ''a'']"
proof -
  show "np_choice (\<lambda>st m. (0, st)) st [''a'', ''b''] 2 True = [''a'', ''a'']"
    by (simp add: np_choice_def numeral_2_eq_2)
  show "\<not> sample_without_replacement [''a'', ''b''] 2 [''a'', ''a'']"
  proof
    assume "sample_without_replacement [''a'', ''b''] 2 [''a'', ''a'']"
    from sample_distinct(2) [OF this] show False by simp
  qed
qed


section \<open>Further properties\<close>

text \<open>
  The parts of claim C1 that hold. With \<^verbatim>\<open>score_table=True\<close> the function never calls
  \<^verbatim>\<open>set_threshold\<close> and no line of the header block starts with \<^verbatim>\<open># FPR:\<close>, whatever
  \<^verbatim>\<open>fpr\<close> and \<^verbatim>\<open>cutoff\<close> are; with \<^verbatim>\<open>score_table=False\<close> and both \<^verbatim>\<open>fpr\<close> and
  \<^verbatim>\<open>cutoff\<close> absent, a run that completes has set the threshold from the default
  false-positive rate.
\<close>

lemma score_table_no_threshold:
  "\<forall>ev \<in> set (snd (scan_to_file h w inputfile pfmfile filepath_or_buffer nreport fpr cutoff
      bed scan_rc table True bgfile genome ncpus zscore gcnorm random_state progress)).
     \<not> is_set_threshold ev"
proof
  fix ev
  assume m: "ev \<in> set (snd (scan_to_file h w inputfile pfmfile filepath_or_buffer nreport fpr
      cutoff bed scan_rc table True bgfile genome ncpus zscore gcnorm random_state progress))"
  show "\<not> is_set_threshold ev"
  proof
    assume t: "is_set_threshold ev"
    from scan_to_file_engine_event [OF m is_set_threshold_engine [OF t]] file_calls_threshold t
    have "ev \<in> set (threshold_calls True fpr cutoff)" by blast
    then show False by (simp add: threshold_calls_def)
  qed
qed

lemma score_table_no_fpr_line:
  "\<forall>l \<in> set (header_lines w inputfile pfmfile fpr cutoff True bgfile genome zscore gcnorm).
     \<not> prefix ''# FPR:'' l"
  by (cases "effective_fpr fpr cutoff"; cases cutoff)
     (simp_all add: header_lines_def fpr_lines_def threshold_lines_def threshold_line_def
        scoring_line_def)

lemma default_fpr_threshold:
  assumes "fst (scan_to_file h w inputfile pfmfile filepath_or_buffer nreport None None
      bed scan_rc table False bgfile genome ncpus zscore gcnorm random_state progress) = None"
  shows "SetThreshold (Some FPR) None
      \<in> set (snd (scan_to_file h w inputfile pfmfile filepath_or_buffer nreport None None
           bed scan_rc table False bgfile genome ncpus zscore gcnorm random_state progress))"
proof -
  from scan_to_file_completed [OF assms] have
    "SetThreshold (Some FPR) None
       \<in> set (engine_calls (snd (scan_to_file h w inputfile pfmfile filepath_or_buffer nreport
            None None bed scan_rc table False bgfile genome ncpus zscore gcnorm random_state
            progress)))"
    by (auto simp: file_calls_def threshold_calls_def effective_fpr_def)
  then show ?thesis by (simp add: engine_calls_def)
qed

text \<open>
  An empty list reaches \<^verbatim>\<open>motifs[0]\<close> and raises \<^verbatim>\<open>IndexError\<close>, which is none of the
  errors of the taxonomy.
\<close>

lemma check_motifs_empty_list:
  "check_motifs h (PList []) = Inl IndexError"
  "\<not> input_validation_error (check_motifs h (PList []))"
  by (simp_all add: input_validation_error_def)

end
